theory Spec2Isabelle
  imports Complex_Main
begin

text \<open>
  A shallow embedding of the conformation samplers of qFit (\<open>src/qfit/samplers.py\<close>):
  the axis aligner, the random rotation sets and the samplers that move atoms of a
  segment, a residue or a ligand. Definitions come first, the properties after them.
\<close>

section \<open>NumPy double-precision values\<close>

text \<open>
  The samplers compute on NumPy \<open>float64\<close> arrays. A finite value is modelled by the
  real number it stands for (no rounding, no overflow); the three kinds of non-finite
  value that NumPy produces instead of raising (a division by zero only warns) are kept,
  with the IEEE 754 rules for them. Every divisor in this module is a norm or a sum of
  squares, so a zero divisor is the positive zero and the sign of the quotient is the
  sign of the dividend.
\<close>

datatype npfloat = Fin real | PInf | NInf | NaN

fun fneg :: "npfloat \<Rightarrow> npfloat" where
  "fneg (Fin a) = Fin (- a)"
| "fneg PInf = NInf"
| "fneg NInf = PInf"
| "fneg NaN = NaN"

fun fadd :: "npfloat \<Rightarrow> npfloat \<Rightarrow> npfloat" where
  "fadd NaN _ = NaN"
| "fadd _ NaN = NaN"
| "fadd (Fin a) (Fin b) = Fin (a + b)"
| "fadd PInf NInf = NaN"
| "fadd NInf PInf = NaN"
| "fadd PInf _ = PInf"
| "fadd _ PInf = PInf"
| "fadd NInf _ = NInf"
| "fadd _ NInf = NInf"

definition fsub :: "npfloat \<Rightarrow> npfloat \<Rightarrow> npfloat" where
  "fsub x y = fadd x (fneg y)"

text \<open>The infinity with the sign of a nonzero real; \<open>0 * inf\<close> is \<open>nan\<close>.\<close>

definition signed_inf :: "real \<Rightarrow> npfloat" where
  "signed_inf a = (if a = 0 then NaN else if 0 < a then PInf else NInf)"

fun fmul :: "npfloat \<Rightarrow> npfloat \<Rightarrow> npfloat" where
  "fmul NaN _ = NaN"
| "fmul _ NaN = NaN"
| "fmul (Fin a) (Fin b) = Fin (a * b)"
| "fmul (Fin a) PInf = signed_inf a"
| "fmul (Fin a) NInf = signed_inf (- a)"
| "fmul PInf (Fin b) = signed_inf b"
| "fmul NInf (Fin b) = signed_inf (- b)"
| "fmul PInf PInf = PInf"
| "fmul NInf NInf = PInf"
| "fmul PInf NInf = NInf"
| "fmul NInf PInf = NInf"

fun fdiv :: "npfloat \<Rightarrow> npfloat \<Rightarrow> npfloat" where
  "fdiv NaN _ = NaN"
| "fdiv _ NaN = NaN"
| "fdiv (Fin a) (Fin b) = (if b = 0 then signed_inf a else Fin (a / b))"
| "fdiv (Fin a) _ = Fin 0"
| "fdiv PInf (Fin b) = (if b < 0 then NInf else PInf)"
| "fdiv NInf (Fin b) = (if b < 0 then PInf else NInf)"
| "fdiv _ _ = NaN"

fun fsqrt :: "npfloat \<Rightarrow> npfloat" where
  "fsqrt (Fin a) = (if a < 0 then NaN else Fin (sqrt a))"
| "fsqrt PInf = PInf"
| "fsqrt _ = NaN"

fun farccos :: "npfloat \<Rightarrow> npfloat" where
  "farccos (Fin a) = (if - 1 \<le> a \<and> a \<le> 1 then Fin (arccos a) else NaN)"
| "farccos _ = NaN"

fun fcos :: "npfloat \<Rightarrow> npfloat" where
  "fcos (Fin a) = Fin (cos a)"
| "fcos _ = NaN"

fun fsin :: "npfloat \<Rightarrow> npfloat" where
  "fsin (Fin a) = Fin (sin a)"
| "fsin _ = NaN"

text \<open>Comparisons with \<open>nan\<close> are false.\<close>

fun flt :: "npfloat \<Rightarrow> npfloat \<Rightarrow> bool" where
  "flt NaN _ = False"
| "flt _ NaN = False"
| "flt (Fin a) (Fin b) = (a < b)"
| "flt NInf NInf = False"
| "flt NInf _ = True"
| "flt _ NInf = False"
| "flt PInf _ = False"
| "flt _ PInf = True"

fun fle :: "npfloat \<Rightarrow> npfloat \<Rightarrow> bool" where
  "fle NaN _ = False"
| "fle _ NaN = False"
| "fle x y = (x = y \<or> flt x y)"

definition deg2rad :: "npfloat \<Rightarrow> npfloat" where
  "deg2rad x = fmul x (Fin (pi / 180))"

text \<open>
  \<open>np.isclose(a, b)\<close> with the default \<open>rtol = 1e-5\<close>, \<open>atol = 1e-8\<close>: finite values
  are close when \<open>|a - b| \<le> atol + rtol * |b|\<close>, equal infinities are close, \<open>nan\<close> is
  close to nothing.
\<close>

fun isclose :: "npfloat \<Rightarrow> npfloat \<Rightarrow> bool" where
  "isclose (Fin a) (Fin b) = (\<bar>a - b\<bar> \<le> 1 / 10 ^ 8 + (1 / 10 ^ 5) * \<bar>b\<bar>)"
| "isclose PInf PInf = True"
| "isclose NInf NInf = True"
| "isclose _ _ = False"

section \<open>Vectors and matrices\<close>

type_synonym vec3 = "npfloat \<times> npfloat \<times> npfloat"

text \<open>A 3x3 array is the triple of its rows.\<close>

type_synonym mat3 = "vec3 \<times> vec3 \<times> vec3"

fun dot :: "vec3 \<Rightarrow> vec3 \<Rightarrow> npfloat" where
  "dot (a, b, c) (x, y, z) = fadd (fadd (fmul a x) (fmul b y)) (fmul c z)"

fun vadd :: "vec3 \<Rightarrow> vec3 \<Rightarrow> vec3" where
  "vadd (a, b, c) (x, y, z) = (fadd a x, fadd b y, fadd c z)"

fun vsub :: "vec3 \<Rightarrow> vec3 \<Rightarrow> vec3" where
  "vsub (a, b, c) (x, y, z) = (fsub a x, fsub b y, fsub c z)"

fun vdiv :: "vec3 \<Rightarrow> npfloat \<Rightarrow> vec3" where
  "vdiv (a, b, c) d = (fdiv a d, fdiv b d, fdiv c d)"

text \<open>\<open>np.linalg.norm(v)\<close> and \<open>np.linalg.norm(v[:-1])\<close>.\<close>

fun norm3 :: "vec3 \<Rightarrow> npfloat" where
  "norm3 (a, b, c) = fsqrt (fadd (fadd (fmul a a) (fmul b b)) (fmul c c))"

fun norm_planar :: "vec3 \<Rightarrow> npfloat" where
  "norm_planar (a, b, c) = fsqrt (fadd (fmul a a) (fmul b b))"

fun transpose3 :: "mat3 \<Rightarrow> mat3" where
  "transpose3 ((a, b, c), (d, e, f), (g, h, i)) = ((a, d, g), (b, e, h), (c, f, i))"

fun mat_vec :: "mat3 \<Rightarrow> vec3 \<Rightarrow> vec3" where
  "mat_vec (r0, r1, r2) v = (dot r0 v, dot r1 v, dot r2 v)"

text \<open>\<open>A @ B\<close>: row \<open>i\<close> of the product holds the dot products of row \<open>i\<close> of \<open>A\<close> with the columns of \<open>B\<close>.\<close>

definition mat_mul :: "mat3 \<Rightarrow> mat3 \<Rightarrow> mat3" where
  "mat_mul A B =
     (case A of (r0, r1, r2) \<Rightarrow>
        (mat_vec (transpose3 B) r0, mat_vec (transpose3 B) r1, mat_vec (transpose3 B) r2))"


fun allclose3 :: "vec3 \<Rightarrow> vec3 \<Rightarrow> bool" where
  "allclose3 (a, b, c) (x, y, z) = (isclose a x \<and> isclose b y \<and> isclose c z)"

section \<open>Elementary rotations\<close>

text \<open>
  Modelled from the spec: \<open>Rz\<close> is imported from \<open>qfit.structure.math\<close>, which is not
  among the source files. The specification (4.1) gives it as the standard right-handed
  rotation about the Z axis by an angle in radians, built from its sine and cosine.
\<close>

definition Rz :: "npfloat \<Rightarrow> mat3" where
  "Rz theta =
     ((fcos theta, fneg (fsin theta), Fin 0),
      (fsin theta, fcos theta, Fin 0),
      (Fin 0, Fin 0, Fin 1))"

text \<open>
  Modelled from the spec: \<open>Ry\<close>, from the same missing module, is the standard
  right-handed rotation about the Y axis by an angle in radians (specification 4.1).
\<close>

definition Ry :: "npfloat \<Rightarrow> mat3" where
  "Ry theta =
     ((fcos theta, Fin 0, fsin theta),
      (Fin 0, Fin 1, Fin 0),
      (fneg (fsin theta), Fin 0, fcos theta))"

section \<open>Errors\<close>

datatype error =
    ValueError_axis vec3
  | ValueError_broadcast
  | ValueError_not_in_list
  | RuntimeError
  | AssertionError
  | IndexError
  | RecursionError

section \<open>ZAxisAligner\<close>

record aligner =
  Rz_of :: mat3
  Ry_of :: mat3
  backward_rotation :: mat3
  forward_rotation :: mat3

text \<open>
  The body of \<open>ZAxisAligner.__init__\<close> up to the check: the two rotations and the axis
  that the check compares with \<open>[0, 0, 1]\<close>.
\<close>

definition align_steps :: "vec3 \<Rightarrow> mat3 \<times> mat3 \<times> vec3" where
  "align_steps axis0 =
     (let axis1 = vdiv axis0 (norm_planar axis0);
          a = farccos (fst axis1);
          xaxis_angle = (if flt (fst (snd axis1)) (Fin 0) then fmul a (Fin (- 1)) else a);
          rz = Rz xaxis_angle;
          axis2 = mat_vec (transpose3 rz) axis1;
          b = farccos (fdiv (snd (snd axis2)) (norm3 axis2));
          zaxis_angle = (if flt (fst axis2) (Fin 0) then fmul b (Fin (- 1)) else b);
          ry = Ry zaxis_angle;
          axis3 = vdiv (mat_vec (transpose3 ry) axis2) (norm3 axis2)
      in (rz, ry, axis3))"

definition aligned_axis :: "vec3 \<Rightarrow> vec3" where
  "aligned_axis axis0 = snd (snd (align_steps axis0))"

definition ZAxisAligner :: "vec3 \<Rightarrow> error + aligner" where
  "ZAxisAligner axis0 =
     (case align_steps axis0 of (rz, ry, axis3) \<Rightarrow>
        if \<not> allclose3 axis3 (Fin 0, Fin 0, Fin 1) then Inl (ValueError_axis axis3)
        else Inr \<lparr>Rz_of = rz, Ry_of = ry,
                  backward_rotation = mat_mul (transpose3 ry) (transpose3 rz),
                  forward_rotation = mat_mul rz ry\<rparr>)"


fun close_to :: "real \<Rightarrow> npfloat \<Rightarrow> npfloat \<Rightarrow> bool" where
  "close_to tol (Fin a) (Fin b) = (\<bar>a - b\<bar> \<le> tol)"
| "close_to tol _ _ = False"

fun vec_within :: "real \<Rightarrow> vec3 \<Rightarrow> vec3 \<Rightarrow> bool" where
  "vec_within tol (a, b, c) (x, y, z) = (close_to tol a x \<and> close_to tol b y \<and> close_to tol c z)"


section \<open>Quaternions and rotation matrices\<close>

type_synonym quat = "npfloat \<times> npfloat \<times> npfloat \<times> npfloat"









section \<open>Random rotations\<close>

text \<open>
  The random source is the sequence of results of the successive calls
  \<open>np.random.uniform(-1, 1, size=(2,))\<close>; the state is the number of calls made so far.
  The rejection loops have no iteration cap, so they are partial: \<open>None\<close> is a loop that
  never ends.
\<close>

type_synonym rng = "nat \<Rightarrow> real \<times> real"

partial_function (option) draw_pair :: "rng \<Rightarrow> nat \<Rightarrow> ((real \<times> real) \<times> nat) option" where
  "draw_pair src k =
     (case src k of (e1, e2) \<Rightarrow>
        if 1 \<le> e1 * e1 + e2 * e2 then draw_pair src (Suc k) else Some ((e1, e2), Suc k))"

definition quat_of_variates :: "real \<Rightarrow> real \<Rightarrow> real \<Rightarrow> real \<Rightarrow> quat" where
  "quat_of_variates e1 e2 e3 e4 =
     (let s1 = e1 * e1 + e2 * e2;
          s2 = e3 * e3 + e4 * e4;
          rootv = fsqrt (fdiv (Fin (1 - s1)) (Fin s2))
      in (Fin e1, Fin e2, fmul (Fin e3) rootv, fmul (Fin e4) rootv))"

definition random_rotation :: "rng \<Rightarrow> nat \<Rightarrow> (quat \<times> nat) option" where
  "random_rotation src k =
     (case draw_pair src k of
        None \<Rightarrow> None
      | Some ((e1, e2), k1) \<Rightarrow>
          (case draw_pair src k1 of
             None \<Rightarrow> None
           | Some ((e3, e4), k2) \<Rightarrow> Some (quat_of_variates e1 e2 e3 e4, k2)))"

text \<open>The length of a quaternion, \<open>np.linalg.norm\<close> of its four components.\<close>

fun quat_norm :: "quat \<Rightarrow> npfloat" where
  "quat_norm (w, x, y, z) =
     fsqrt (fadd (fadd (fadd (fmul w w) (fmul x x)) (fmul y y)) (fmul z z))"

definition identity_quat :: quat where
  "identity_quat = (Fin 1, Fin 0, Fin 0, Fin 0)"

text \<open>The rotation angle that \<open>local\<close> derives from a quaternion: \<open>2 * np.arccos(quat[0])\<close>.\<close>

definition rotation_angle :: "quat \<Rightarrow> npfloat" where
  "rotation_angle q = fmul (Fin 2) (farccos (fst q))"

partial_function (option) local_loop ::
  "rng \<Rightarrow> nat \<Rightarrow> npfloat \<Rightarrow> int \<Rightarrow> quat list \<Rightarrow> (quat list \<times> nat) option" where
  "local_loop src k radian_max_angle nrots quats =
     (if int (length quats) < nrots - 1 then
        (case random_rotation src k of
           None \<Rightarrow> None
         | Some (quat, k') \<Rightarrow>
             if fle (rotation_angle quat) radian_max_angle
             then local_loop src k' radian_max_angle nrots (quats @ [quat])
             else local_loop src k' radian_max_angle nrots quats)
      else Some (quats @ [identity_quat], k))"

definition RotationSets_local :: "rng \<Rightarrow> nat \<Rightarrow> npfloat \<Rightarrow> int \<Rightarrow> (quat list \<times> nat) option" where
  "RotationSets_local src k max_angle nrots = local_loop src k (deg2rad max_angle) nrots []"


text \<open>
  When the loops end, in terms of the random source. A draw is accepted when its squared
  norm is below 1 (the loops go on while \<open>s >= 1.0\<close>); the first accepted draw from \<open>k\<close> on
  is the one a rejection loop started at draw \<open>k\<close> stops at.
\<close>

definition accepted :: "rng \<Rightarrow> nat \<Rightarrow> bool" where
  "accepted src i = (fst (src i) * fst (src i) + snd (src i) * snd (src i) < 1)"

definition first_accepted :: "rng \<Rightarrow> nat \<Rightarrow> nat \<Rightarrow> bool" where
  "first_accepted src k i = (k \<le> i \<and> accepted src i \<and> (\<forall>j. k \<le> j \<and> j < i \<longrightarrow> \<not> accepted src j))"

text \<open>
  \<open>collects src rma k m qs k'\<close>: started at draw \<open>k\<close>, the random rotations that the source
  yields give, after finitely many of them, \<open>m\<close> rotations within the angle \<open>rma\<close>, the list
  \<open>qs\<close> in order, the last of them ending at draw \<open>k'\<close>; the rotations beyond the angle in
  between are passed over.
\<close>

inductive collects :: "rng \<Rightarrow> npfloat \<Rightarrow> nat \<Rightarrow> nat \<Rightarrow> quat list \<Rightarrow> nat \<Rightarrow> bool"
  for src :: rng and rma :: npfloat where
  enough: "collects src rma k 0 [] k"
| keep: "random_rotation src k = Some (q, k1) \<Longrightarrow> fle (rotation_angle q) rma \<Longrightarrow>
         collects src rma k1 m qs k' \<Longrightarrow> collects src rma k (Suc m) (q # qs) k'"
| reject: "random_rotation src k = Some (q, k1) \<Longrightarrow> \<not> fle (rotation_angle q) rma \<Longrightarrow>
           collects src rma k1 (Suc m) qs k' \<Longrightarrow> collects src rma k (Suc m) qs k'"

text \<open>
  A random source that never runs out of accepted draws and of which every accepted draw
  gives a rotation angle within the bound; it may have any number of rejected draws.
\<close>

definition supplies_within :: "rng \<Rightarrow> npfloat \<Rightarrow> bool" where
  "supplies_within src rma =
     ((\<forall>i. \<exists>j. i \<le> j \<and> accepted src j) \<and>
      (\<forall>i. accepted src i \<longrightarrow> fle (Fin (2 * arccos (fst (src i)))) rma))"

text \<open>
  A random source with a draw that the rejection test refuses (the first) and a rotation
  beyond a half turn (from the second and third draws).
\<close>

definition rejecting_source :: rng where
  "rejecting_source i =
     (if i = 0 then (9 / 10, 9 / 10)
      else if i = 1 then (- 1 / 2, 0)
      else if i = 3 then (1 / 2, 0)
      else (0, 1 / 2))"


section \<open>Coordinate arrays and the structure accessor\<close>

text \<open>
  The structure classes (segment, residue, ligand) are not among the source files. The
  specification (3, 6) gives what the samplers need from them: a coordinate array with
  one 3D point per atom, read and written by index selection; a selection of atom
  indices by name, with equality or inequality; the connectivity of a ligand as an
  adjacency array indexed by atom.
\<close>

type_synonym coords = "vec3 list"

text \<open>
  Modelled from the spec: \<open>get_xyz(sel)\<close> of the missing structure classes reads the
  coordinates of the selected atoms, as a copy that the sampler may change freely
  (specification 6); an index beyond the array is an \<open>IndexError\<close>, as in NumPy.
\<close>

definition get_xyz :: "coords \<Rightarrow> nat list \<Rightarrow> error + coords" where
  "get_xyz coor sel =
     (if list_all (\<lambda>i. i < length coor) sel then Inr (map (\<lambda>i. coor ! i) sel)
      else Inl IndexError)"

text \<open>\<open>coor[sel] = new\<close>: row \<open>sel[k]\<close> becomes \<open>new[k]\<close>, in order.\<close>

fun assign_rows :: "coords \<Rightarrow> nat list \<Rightarrow> coords \<Rightarrow> coords" where
  "assign_rows coor (i # sel) (v # new) = assign_rows (coor[i := v]) sel new"
| "assign_rows coor _ _ = coor"

text \<open>
  Modelled from the spec: \<open>set_xyz(new, sel)\<close> of the missing structure classes writes the
  coordinates of the selected atoms back and leaves every other atom as it is
  (specification 6); as in NumPy, the rows must be as many as the indices and the indices
  within the array.
\<close>

definition set_xyz :: "coords \<Rightarrow> coords \<Rightarrow> nat list \<Rightarrow> error + coords" where
  "set_xyz coor new sel =
     (if length new \<noteq> length sel then Inl ValueError_broadcast
      else if list_all (\<lambda>i. i < length coor) sel then Inr (assign_rows coor sel new)
      else Inl IndexError)"

text \<open>
  Modelled from the spec: \<open>select("name", values)\<close> of the missing structure classes gives
  the indices of the atoms whose name is one of the values, in the order of the atoms
  (specification 6); \<open>extract("name", values).coor\<close> is \<open>get_xyz\<close> of that selection.
\<close>

definition select_name :: "string list \<Rightarrow> string list \<Rightarrow> nat list" where
  "select_name names values = filter (\<lambda>i. names ! i \<in> set values) [0..<length names]"

text \<open>
  Modelled from the spec: \<open>select("name", values, "!=")\<close>, the selection by inequality
  (specification 6): the indices of the atoms whose name is none of the values.
\<close>

definition select_name_ne :: "string list \<Rightarrow> string list \<Rightarrow> nat list" where
  "select_name_ne names values = filter (\<lambda>i. names ! i \<notin> set values) [0..<length names]"

text \<open>\<open>v[0]\<close> and \<open>v[1]\<close> of an array of rows: an \<open>IndexError\<close> when the row is missing.\<close>

fun row0 :: "coords \<Rightarrow> error + vec3" where
  "row0 (v # _) = Inr v"
| "row0 _ = Inl IndexError"

fun row1 :: "coords \<Rightarrow> error + vec3" where
  "row1 (_ # v # _) = Inr v"
| "row1 _ = Inl IndexError"

text \<open>\<open>np.dot(v, M)\<close> for a row \<open>v\<close>, and \<open>np.cross\<close>.\<close>

definition row_times :: "vec3 \<Rightarrow> mat3 \<Rightarrow> vec3" where
  "row_times v M = (case transpose3 M of (c0, c1, c2) \<Rightarrow> (dot v c0, dot v c1, dot v c2))"

fun cross :: "vec3 \<Rightarrow> vec3 \<Rightarrow> vec3" where
  "cross (a0, a1, a2) (b0, b1, b2) =
     (fsub (fmul a1 b2) (fmul a2 b1), fsub (fmul a2 b0) (fmul a0 b2), fsub (fmul a0 b1) (fmul a1 b0))"

section \<open>BackboneRotator\<close>

text \<open>
  Modelled from the spec: a segment (its class is not among the source files) as the
  rotator sees it: its coordinates, the number of its residues and the result of
  \<open>get_psi_phi_angles()\<close>, one tuple (psi selection, psi axis, psi origin, phi selection,
  phi axis, phi origin) per residue.
\<close>

type_synonym psi_phi = "nat list \<times> vec3 \<times> vec3 \<times> nat list \<times> vec3 \<times> vec3"

record segment =
  seg_coor :: coords
  seg_residues :: nat
  seg_psi_phi_angles :: "psi_phi list"

record backbone_rotator =
  ndofs :: nat
  starting_coor :: coords
  aligners :: "aligner list"
  origins :: "vec3 list"
  atoms_to_rotate :: "nat list list"

text \<open>The first loop of \<open>__init__\<close>: selections, aligners and origins, two per residue.\<close>

fun collect_angles ::
  "psi_phi list \<Rightarrow> nat list list \<times> aligner list \<times> vec3 list \<Rightarrow>
     error + nat list list \<times> aligner list \<times> vec3 list" where
  "collect_angles [] acc = Inr acc"
| "collect_angles ((psi_sel, psi_axis, psi_origin, phi_sel, phi_axis, phi_origin) # rest)
       (selections, als, orgs) =
     (case ZAxisAligner psi_axis of
        Inl e \<Rightarrow> Inl e
      | Inr psi_aligner \<Rightarrow>
          (case ZAxisAligner phi_axis of
             Inl e \<Rightarrow> Inl e
           | Inr phi_aligner \<Rightarrow>
               collect_angles rest
                 (selections @ [psi_sel, phi_sel],
                  als @ [psi_aligner, phi_aligner],
                  orgs @ [psi_origin, phi_origin])))"

text \<open>
  The second loop: every selection is joined with all the sets built before it;
  \<open>np.unique\<close> sorts and removes duplicates. (The cast to \<open>int32\<close> changes no atom index.)
\<close>

fun cumulate :: "nat list list \<Rightarrow> nat list list \<Rightarrow> nat list list" where
  "cumulate acc [] = acc"
| "cumulate acc (selection # rest) =
     cumulate (acc @ [sort (remdups (concat acc @ selection))]) rest"

definition BackboneRotator_init :: "segment \<Rightarrow> error + backbone_rotator" where
  "BackboneRotator_init seg =
     (case collect_angles (seg_psi_phi_angles seg) ([], [], []) of
        Inl e \<Rightarrow> Inl e
      | Inr (selections, als, orgs) \<Rightarrow>
          Inr \<lparr>ndofs = 2 * seg_residues seg,
               starting_coor = seg_coor seg,
               aligners = als,
               origins = orgs,
               atoms_to_rotate = cumulate [] selections\<rparr>)"

text \<open>
  The loop of \<open>__call__\<close> over the zipped torsions, origins, aligners and atom sets, on the
  coordinates of the segment.
\<close>

fun rotate_all :: "(npfloat \<times> vec3 \<times> aligner \<times> nat list) list \<Rightarrow> coords \<Rightarrow> error + coords" where
  "rotate_all [] seg = Inr seg"
| "rotate_all ((torsion, origin, al, atoms) # rest) seg =
     (if torsion = Fin 0 then rotate_all rest seg
      else
        (case get_xyz seg atoms of
           Inl e \<Rightarrow> Inl e
         | Inr coor \<Rightarrow>
             (let coor1 = map (\<lambda>v. vsub v origin) coor;
                  R = mat_mul (mat_mul (forward_rotation al) (Rz torsion)) (backward_rotation al);
                  coor2 = map (\<lambda>v. row_times v (transpose3 R)) coor1;
                  coor3 = map (\<lambda>v. vadd v origin) coor2
              in (case set_xyz seg coor3 atoms of
                    Inl e \<Rightarrow> Inl e
                  | Inr seg' \<Rightarrow> rotate_all rest seg'))))"

text \<open>
  \<open>__call__\<close> takes the coordinates the segment has when it is called and gives those it
  has afterwards. The assignment \<open>self.segment.coor = self._starting_coor\<close> replaces the
  former before anything is read.
\<close>

definition BackboneRotator_call :: "backbone_rotator \<Rightarrow> npfloat list \<Rightarrow> coords \<Rightarrow> error + coords" where
  "BackboneRotator_call r torsions seg =
     (if length torsions \<noteq> ndofs r then Inl AssertionError
      else
        (let torsions' = map deg2rad (rev torsions);
             seg0 = starting_coor r
         in rotate_all (zip torsions' (zip (origins r) (zip (aligners r) (atoms_to_rotate r)))) seg0))"

text \<open>
  The rotator keeps two references, \<open>self.segment\<close> and \<open>self._starting_coor\<close>, the array
  that the property \<open>coor\<close> of the segment gave at construction. Whether a call starts
  from the coordinates captured at construction depends on whether that array is an array
  of its own or the array of the segment, which every call overwrites. The coordinate
  arrays are therefore kept in a store, by address, with the first address not in use.
\<close>

record store =
  arrays :: "nat \<Rightarrow> coords"
  unused :: nat

text \<open>
  Modelled from the spec: the property \<open>coor\<close> of the missing structure classes. Reading
  it gives the coordinates in an array of its own (specification 6: what the accessor
  returns behaves as a copy that the sampler may change freely).
\<close>

definition read_coor :: "store \<Rightarrow> nat \<Rightarrow> nat \<times> store" where
  "read_coor st a =
     (unused st, st\<lparr>arrays := (arrays st)(unused st := arrays st a), unused := Suc (unused st)\<rparr>)"

text \<open>
  Modelled from the spec: assigning to the property \<open>coor\<close> writes the values into the
  array of the structure, which stays the owner of its array (specification 3).
\<close>

definition write_coor :: "store \<Rightarrow> nat \<Rightarrow> nat \<Rightarrow> store" where
  "write_coor st a b = st\<lparr>arrays := (arrays st)(a := arrays st b)\<rparr>"

text \<open>
  The rotator as an object: the address of the array of its segment, the address held by
  \<open>_starting_coor\<close>, and the fields that \<open>__init__\<close> computes.
\<close>

record backbone_object =
  bo_segment :: nat
  bo_starting_coor :: nat
  bo_rotator :: backbone_rotator

text \<open>
  \<open>__init__\<close> on a segment whose coordinates are the array at address \<open>a\<close>:
  \<open>self._starting_coor = segment.coor\<close> reads the property, the rest is as above.
\<close>

definition BackboneRotator_new ::
    "store \<Rightarrow> nat \<Rightarrow> nat \<Rightarrow> psi_phi list \<Rightarrow> error + backbone_object \<times> store" where
  "BackboneRotator_new st a n angles =
     (case read_coor st a of
        (start, st') \<Rightarrow>
          (case BackboneRotator_init
                  \<lparr>seg_coor = arrays st' start, seg_residues = n, seg_psi_phi_angles = angles\<rparr> of
             Inl e \<Rightarrow> Inl e
           | Inr r \<Rightarrow> Inr (\<lparr>bo_segment = a, bo_starting_coor = start, bo_rotator = r\<rparr>, st')))"

text \<open>
  \<open>__call__\<close> on the store: the assertion, the torsions reversed and converted, the
  assignment \<open>self.segment.coor = self._starting_coor\<close>, and the loop on the array of the
  segment.
\<close>

definition BackboneRotator_invoke :: "backbone_object \<Rightarrow> npfloat list \<Rightarrow> store \<Rightarrow> error + store" where
  "BackboneRotator_invoke ob torsions st =
     (let r = bo_rotator ob
      in if length torsions \<noteq> ndofs r then Inl AssertionError
         else
           (let torsions' = map deg2rad (rev torsions);
                st1 = write_coor st (bo_segment ob) (bo_starting_coor ob)
            in case rotate_all (zip torsions' (zip (origins r) (zip (aligners r) (atoms_to_rotate r))))
                      (arrays st1 (bo_segment ob)) of
                 Inl e \<Rightarrow> Inl e
               | Inr c \<Rightarrow> Inr (st1\<lparr>arrays := (arrays st1)(bo_segment ob := c)\<rparr>)))"

text \<open>
  The body of the loop for one atom: the position relative to the origin, times the
  transpose of \<open>forward @ Rz(torsion) @ backward\<close>, moved back by the origin.
\<close>

definition turn :: "aligner \<Rightarrow> npfloat \<Rightarrow> vec3 \<Rightarrow> vec3 \<Rightarrow> vec3" where
  "turn al t origin v =
     vadd (row_times (vsub v origin)
             (transpose3 (mat_mul (mat_mul (forward_rotation al) (Rz t)) (backward_rotation al))))
          origin"

text \<open>
  A segment of one residue with two atoms, its array at address 0: both torsion axes are
  the X axis through the origin, psi moves the first atom and phi the second. The aligner
  of the X axis, and the rotator that the constructor builds on this segment.
\<close>

definition two_atoms :: store where
  "two_atoms = \<lparr>arrays = (\<lambda>_. [])(0 := [(Fin 0, Fin 1, Fin 0), (Fin 0, Fin 2, Fin 0)]), unused = 1\<rparr>"

definition two_angles :: "psi_phi list" where
  "two_angles = [([0], (Fin 1, Fin 0, Fin 0), (Fin 0, Fin 0, Fin 0),
                  [1], (Fin 1, Fin 0, Fin 0), (Fin 0, Fin 0, Fin 0))]"

definition x_aligner :: aligner where
  "x_aligner = \<lparr>Rz_of = Rz (Fin 0), Ry_of = Ry (Fin (pi / 2)),
          backward_rotation = ((Fin 0, Fin 0, Fin (- 1)), (Fin 0, Fin 1, Fin 0), (Fin 1, Fin 0, Fin 0)),
          forward_rotation = ((Fin 0, Fin 0, Fin 1), (Fin 0, Fin 1, Fin 0), (Fin (- 1), Fin 0, Fin 0))\<rparr>"

definition two_atoms_rotator :: backbone_object where
  "two_atoms_rotator =
     \<lparr>bo_segment = 0, bo_starting_coor = 1,
      bo_rotator = \<lparr>ndofs = 2, starting_coor = [(Fin 0, Fin 1, Fin 0), (Fin 0, Fin 2, Fin 0)],
                     aligners = [x_aligner, x_aligner],
                     origins = [(Fin 0, Fin 0, Fin 0), (Fin 0, Fin 0, Fin 0)],
                     atoms_to_rotate = [[0], [0, 1]]\<rparr>\<rparr>"

section \<open>Translator\<close>

record translator =
  coor_to_translate :: coords

definition Translator_init :: "coords \<Rightarrow> translator" where
  "Translator_init ligand_coor = \<lparr>coor_to_translate = ligand_coor\<rparr>"

text \<open>
  \<open>self.coor_to_translate + np.asarray(trans)\<close> for a one-dimensional \<open>trans\<close>: NumPy
  broadcasts a vector of length 3 over the rows and a vector of length 1 over every
  entry, and raises a \<open>ValueError\<close> for any other length.
\<close>

definition Translator_call :: "translator \<Rightarrow> npfloat list \<Rightarrow> error + coords" where
  "Translator_call t trans_vec =
     (case trans_vec of
        [d] \<Rightarrow> Inr (map (\<lambda>v. vadd v (d, d, d)) (coor_to_translate t))
      | [dx, dy, dz] \<Rightarrow> Inr (map (\<lambda>v. vadd v (dx, dy, dz)) (coor_to_translate t))
      | _ \<Rightarrow> Inl ValueError_broadcast)"

section \<open>CBAngleRotator and BisectingAngleRotator\<close>

text \<open>
  Modelled from the spec: a residue (its class is not among the source files) as the angle
  rotators see it: the names and the coordinates of its atoms, in the same order.
\<close>

record residue =
  res_name :: "string list"
  res_coor :: coords

record angle_rotator =
  ar_atoms_to_rotate :: "nat list"
  ar_origin :: vec3
  ar_coor_to_rotate :: coords
  ar_forward :: mat3

text \<open>
  \<open>CBAngleRotator.__init__\<close> up to the rotation axis: the check of the three atoms, the atoms
  to move, the origin at CB, the coordinates to rotate and the unit normal of the
  CA-CB-CG plane.
\<close>

definition CBAngleRotator_axis :: "residue \<Rightarrow> error + nat list \<times> vec3 \<times> coords \<times> vec3" where
  "CBAngleRotator_axis res =
     (let angle_selection = select_name (res_name res) [''CA'', ''CB'', ''CG'']
      in if length angle_selection \<noteq> 3 then Inl RuntimeError
         else
           (let atoms = select_name_ne (res_name res)
                          [''N'', ''CA'', ''C'', ''O'', ''CB'', ''H'', ''HA'', ''HB2'', ''HB3'']
            in case get_xyz (res_coor res) (select_name (res_name res) [''CB'']) of
                 Inl e \<Rightarrow> Inl e
               | Inr cb \<Rightarrow>
                   (case row0 cb of
                      Inl e \<Rightarrow> Inl e
                    | Inr origin \<Rightarrow>
                        (case get_xyz (res_coor res) atoms of
                           Inl e \<Rightarrow> Inl e
                         | Inr coor \<Rightarrow>
                             (case get_xyz (res_coor res)
                                     (select_name (res_name res) [''CA'', ''CG'']) of
                                Inl e \<Rightarrow> Inl e
                              | Inr ax \<Rightarrow>
                                  (let axis_coor = map (\<lambda>v. vsub v origin) ax
                                   in case row0 axis_coor of
                                        Inl e \<Rightarrow> Inl e
                                      | Inr v0 \<Rightarrow>
                                          (case row1 axis_coor of
                                             Inl e \<Rightarrow> Inl e
                                           | Inr v1 \<Rightarrow>
                                               (let axis = cross v0 v1
                                                in Inr (atoms, origin,
                                                        map (\<lambda>v. vsub v origin) coor,
                                                        vdiv axis (norm3 axis))))))))))"

definition CBAngleRotator_init :: "residue \<Rightarrow> error + angle_rotator" where
  "CBAngleRotator_init res =
     (case CBAngleRotator_axis res of
        Inl e \<Rightarrow> Inl e
      | Inr (atoms, origin, coor, axis) \<Rightarrow>
          (case ZAxisAligner axis of
             Inl e \<Rightarrow> Inl e
           | Inr al \<Rightarrow>
               Inr \<lparr>ar_atoms_to_rotate = atoms,
                    ar_origin = origin,
                    ar_coor_to_rotate = map (mat_vec (backward_rotation al)) coor,
                    ar_forward = forward_rotation al\<rparr>))"

text \<open>
  The body shared by the calls of the two angle rotators (identical line by line), with
  the Z rotation as argument: map the cached coordinates back, add the origin, write them.
\<close>

definition angle_rotator_apply :: "angle_rotator \<Rightarrow> mat3 \<Rightarrow> coords \<Rightarrow> error + coords" where
  "angle_rotator_apply r zrot coor =
     (let rot_mat = mat_mul (ar_forward r) zrot;
          new_coor = map (\<lambda>v. vadd (mat_vec rot_mat v) (ar_origin r)) (ar_coor_to_rotate r)
      in set_xyz coor new_coor (ar_atoms_to_rotate r))"

definition CBAngleRotator_call :: "angle_rotator \<Rightarrow> npfloat \<Rightarrow> coords \<Rightarrow> error + coords" where
  "CBAngleRotator_call r angle coor = angle_rotator_apply r (Rz (deg2rad angle)) coor"

definition BisectingAngleRotator_call :: "angle_rotator \<Rightarrow> npfloat \<Rightarrow> coords \<Rightarrow> error + coords" where
  "BisectingAngleRotator_call r angle coor = angle_rotator_apply r (Rz (deg2rad angle)) coor"

section \<open>ChiRotator\<close>

record chi_rotator =
  chi_origin :: vec3
  chi_forward :: mat3
  chi_atom_selection :: "nat list"
  chi_coor_to_rotate :: coords

definition chi_rotator_apply :: "chi_rotator \<Rightarrow> mat3 \<Rightarrow> coords \<Rightarrow> error + coords" where
  "chi_rotator_apply r zrot coor =
     (let R = mat_mul (chi_forward r) zrot;
          tmp = map (\<lambda>v. vadd (row_times v (transpose3 R)) (chi_origin r)) (chi_coor_to_rotate r)
      in set_xyz coor tmp (chi_atom_selection r))"

definition ChiRotator_call :: "chi_rotator \<Rightarrow> npfloat \<Rightarrow> coords \<Rightarrow> error + coords" where
  "ChiRotator_call r angle coor = chi_rotator_apply r (Rz (deg2rad angle)) coor"

section \<open>BondRotator\<close>

text \<open>
  Modelled from the spec: a ligand (its class is not among the source files) as the bond
  rotator sees it: the names and the coordinates of its atoms, and its connectivity, an
  adjacency array with a nonzero entry for every bond (specification 3, 6).
\<close>

record ligand =
  lig_name :: "string list"
  lig_coor :: coords
  lig_connectivity :: "int list list"

record bond_rotator =
  br_root :: nat
  br_atoms_to_rotate :: "nat list"
  br_foundroot :: nat
  br_t :: vec3
  br_forward :: mat3
  br_coor_to_rotate :: coords

text \<open>\<open>list.index\<close>: the first position of a name, a \<open>ValueError\<close> when it is absent.\<close>

fun index_of :: "string \<Rightarrow> string list \<Rightarrow> error + nat" where
  "index_of a [] = Inl ValueError_not_in_list"
| "index_of a (n # ns) =
     (if n = a then Inr 0
      else case index_of a ns of Inl e \<Rightarrow> Inl e | Inr i \<Rightarrow> Inr (Suc i))"

definition flatnonzero :: "int list \<Rightarrow> nat list" where
  "flatnonzero row = filter (\<lambda>i. row ! i \<noteq> 0) [0..<length row]"

text \<open>
  \<open>_find_neighbours_recursively\<close>, with the list of atoms to rotate and the counter of
  paths back to the root as state. The first argument is the number of nested calls that
  the interpreter still allows: Python raises a \<open>RecursionError\<close> beyond its recursion
  limit. \<open>visit_bonds\<close> is the \<open>for\<close> loop over the bonds of the current atom.
\<close>

function find_neighbours_recursively ::
    "nat \<Rightarrow> int list list \<Rightarrow> nat \<Rightarrow> nat \<Rightarrow> nat list \<times> nat \<Rightarrow> error + nat list \<times> nat"
  and visit_bonds ::
    "nat \<Rightarrow> int list list \<Rightarrow> nat \<Rightarrow> nat list \<Rightarrow> nat list \<times> nat \<Rightarrow> error + nat list \<times> nat" where
  "find_neighbours_recursively 0 conn root_atom cur_atom st = Inl RecursionError"
| "find_neighbours_recursively (Suc depth) conn root_atom cur_atom (atoms, foundroot) =
     (if length conn \<le> cur_atom then Inl IndexError
      else visit_bonds depth conn root_atom (flatnonzero (conn ! cur_atom)) (atoms @ [cur_atom], foundroot))"
| "visit_bonds depth conn root_atom [] st = Inr st"
| "visit_bonds depth conn root_atom (b # bonds) (atoms, foundroot) =
     (let foundroot' = (if b = root_atom then foundroot + 1 else foundroot)
      in if b \<notin> set atoms then
           (case find_neighbours_recursively depth conn root_atom b (atoms, foundroot') of
              Inl e \<Rightarrow> Inl e
            | Inr st' \<Rightarrow> visit_bonds depth conn root_atom bonds st')
         else visit_bonds depth conn root_atom bonds (atoms, foundroot'))"
  by pat_completeness auto
termination
  by (relation "measures
        [\<lambda>x. case x of Inl (d, _) \<Rightarrow> 2 * d | Inr (d, _) \<Rightarrow> 2 * d + 1,
         \<lambda>x. case x of Inl _ \<Rightarrow> 0 | Inr (_, _, _, bonds, _) \<Rightarrow> length bonds]")
     auto

definition BondRotator_init :: "nat \<Rightarrow> ligand \<Rightarrow> string \<Rightarrow> string \<Rightarrow> error + bond_rotator" where
  "BondRotator_init depth lig a1 a2 =
     (case index_of a1 (lig_name lig) of
        Inl e \<Rightarrow> Inl e
      | Inr root_atom \<Rightarrow>
          (case index_of a2 (lig_name lig) of
             Inl e \<Rightarrow> Inl e
           | Inr cur_atom \<Rightarrow>
               (case find_neighbours_recursively depth (lig_connectivity lig) root_atom cur_atom ([root_atom], 0) of
                  Inl e \<Rightarrow> Inl e
                | Inr (atoms, foundroot) \<Rightarrow>
                    (case get_xyz (lig_coor lig) atoms of
                       Inl e \<Rightarrow> Inl e
                     | Inr coor \<Rightarrow>
                         (case get_xyz (lig_coor lig) [root_atom] of
                            Inl e \<Rightarrow> Inl e
                          | Inr tt \<Rightarrow>
                              (case row0 tt of
                                 Inl e \<Rightarrow> Inl e
                               | Inr t \<Rightarrow>
                                   (let coor1 = map (\<lambda>v. vsub v t) coor
                                    in case row1 coor1 of
                                         Inl e \<Rightarrow> Inl e
                                       | Inr v1 \<Rightarrow>
                                           (case ZAxisAligner (vdiv v1 (norm_planar v1)) of
                                              Inl e \<Rightarrow> Inl e
                                            | Inr al \<Rightarrow>
                                                Inr \<lparr>br_root = root_atom,
                                                     br_atoms_to_rotate = atoms,
                                                     br_foundroot = foundroot,
                                                     br_t = t,
                                                     br_forward = forward_rotation al,
                                                     br_coor_to_rotate =
                                                       map (mat_vec (backward_rotation al)) coor1\<rparr>))))))))"

text \<open>
  \<open>__call__\<close> reads the coordinates of the ligand and returns the new array; the ligand is
  the first component of the result, as the call leaves it.
\<close>

definition bond_rotator_apply :: "bond_rotator \<Rightarrow> mat3 \<Rightarrow> ligand \<Rightarrow> ligand \<times> (error + coords)" where
  "bond_rotator_apply r zrot lig =
     (let R = mat_mul (br_forward r) zrot;
          rotated = map (\<lambda>v. vadd (mat_vec R v) (br_t r)) (br_coor_to_rotate r);
          coor = lig_coor lig
      in (lig, set_xyz coor rotated (br_atoms_to_rotate r)))"

definition BondRotator_call :: "bond_rotator \<Rightarrow> npfloat \<Rightarrow> ligand \<Rightarrow> ligand \<times> (error + coords)" where
  "BondRotator_call r angle lig = bond_rotator_apply r (Rz angle) lig"

text \<open>
  The moved set as the specification words it: the root atom, and every atom reached from
  the second atom of the bond along bonds without passing through the root.
\<close>

definition bonded :: "int list list \<Rightarrow> nat \<Rightarrow> nat \<Rightarrow> bool" where
  "bonded conn u v = (u < length conn \<and> v < length (conn ! u) \<and> conn ! u ! v \<noteq> 0)"

inductive reached :: "int list list \<Rightarrow> nat \<Rightarrow> nat \<Rightarrow> nat \<Rightarrow> bool" for conn root_atom start where
  start: "reached conn root_atom start start"
| step: "reached conn root_atom start u \<Longrightarrow> bonded conn u v \<Longrightarrow> v \<noteq> root_atom \<Longrightarrow> reached conn root_atom start v"

definition moved_set :: "int list list \<Rightarrow> nat \<Rightarrow> nat \<Rightarrow> nat set" where
  "moved_set conn root_atom start = insert root_atom {v. reached conn root_atom start v}"


text \<open>
  A ligand of four atoms in a chain X - A - B - C, bent at B, used to exercise the bond
  rotator about the bond A - B.
\<close>

definition chain4 :: ligand where
  "chain4 = \<lparr>lig_name = [''X'', ''A'', ''B'', ''C''],
     lig_coor = [(Fin (- 1), Fin 1, Fin 0), (Fin 0, Fin 0, Fin 0), (Fin 1, Fin 0, Fin 0), (Fin 2, Fin 1, Fin 0)],
     lig_connectivity = [[0, 1, 0, 0], [1, 0, 1, 0], [0, 1, 0, 1], [0, 0, 1, 0]]\<rparr>"

section \<open>CovalentBondRotator\<close>

text \<open>
  The class is marked as unused in the source, but it is part of the module and takes an
  angle like the bond rotator. Its constructor takes the root from the names of the
  covalent residue, moves every atom of the ligand (\<open>range(len(ligand.name))\<close>), and
  takes the axis from the second atom of the ligand; it performs no search of the
  connectivity.
\<close>

record covalent_bond_rotator =
  cbr_root :: nat
  cbr_atoms_to_rotate :: "nat list"
  cbr_t :: vec3
  cbr_forward :: mat3
  cbr_coor_to_rotate :: coords

definition CovalentBondRotator_init ::
    "residue \<Rightarrow> ligand \<Rightarrow> string \<Rightarrow> string \<Rightarrow> error + covalent_bond_rotator" where
  "CovalentBondRotator_init covalent_residue lig a1 a2 =
     (case index_of a1 (res_name covalent_residue) of
        Inl e \<Rightarrow> Inl e
      | Inr root_atom \<Rightarrow>
          (let atoms = [0..<length (lig_name lig)]
           in case get_xyz (lig_coor lig) atoms of
                Inl e \<Rightarrow> Inl e
              | Inr coor \<Rightarrow>
                  (case get_xyz (res_coor covalent_residue) [root_atom] of
                     Inl e \<Rightarrow> Inl e
                   | Inr tt \<Rightarrow>
                       (case row0 tt of
                          Inl e \<Rightarrow> Inl e
                        | Inr t \<Rightarrow>
                            (let coor1 = map (\<lambda>v. vsub v t) coor
                             in case row1 coor1 of
                                  Inl e \<Rightarrow> Inl e
                                | Inr v1 \<Rightarrow>
                                    (case ZAxisAligner (vdiv v1 (norm_planar v1)) of
                                       Inl e \<Rightarrow> Inl e
                                     | Inr al \<Rightarrow>
                                         Inr \<lparr>cbr_root = root_atom,
                                              cbr_atoms_to_rotate = atoms,
                                              cbr_t = t,
                                              cbr_forward = forward_rotation al,
                                              cbr_coor_to_rotate =
                                                map (mat_vec (backward_rotation al)) coor1\<rparr>))))))"

text \<open>
  \<open>__call__\<close>, line by line as that of the bond rotator: the Z rotation by the angle as it
  is given, a deep copy of the coordinates of the ligand, the rows of the atoms to rotate
  overwritten; the ligand is the first component of the result, as the call leaves it.
\<close>

definition CovalentBondRotator_call ::
    "covalent_bond_rotator \<Rightarrow> npfloat \<Rightarrow> ligand \<Rightarrow> ligand \<times> (error + coords)" where
  "CovalentBondRotator_call r angle lig =
     (let R = mat_mul (cbr_forward r) (Rz angle);
          rotated = map (\<lambda>v. vadd (mat_vec R v) (cbr_t r)) (cbr_coor_to_rotate r);
          coor = lig_coor lig
      in (lig, set_xyz coor rotated (cbr_atoms_to_rotate r)))"

text \<open>
  A covalent residue of one atom, placed on the line through A and B of the chain above,
  and a residue with CA, CB, CG and one more side-chain atom, bent at CB; used to exercise
  the covalent bond rotator and the CB angle rotator.
\<close>

definition thiol :: residue where
  "thiol = \<lparr>res_name = [''SG''], res_coor = [(Fin (- 1), Fin 0, Fin 0)]\<rparr>"

definition bent_residue :: residue where
  "bent_residue = \<lparr>res_name = [''CA'', ''CB'', ''CG'', ''CD''],
     res_coor = [(Fin 1, Fin 0, Fin 0), (Fin 0, Fin 0, Fin 0), (Fin 0, Fin 0, Fin 1), (Fin 0, Fin 0, Fin 2)]\<rparr>"


section \<open>Properties of the axis aligner\<close>

lemma nan_right [simp]: "fadd x NaN = NaN" "fmul x NaN = NaN" "fdiv x NaN = NaN"
  by (cases x; simp)+

lemma planar_unit:
  fixes a0 a1 :: real
  assumes nz: "a0 * a0 + a1 * a1 \<noteq> 0"
  defines "p \<equiv> sqrt (a0 * a0 + a1 * a1)"
  shows "(a0 / p) * (a0 / p) + (a1 / p) * (a1 / p) = 1" and "0 < p"
proof -
  have nn: "0 \<le> a0 * a0 + a1 * a1" by simp
  with nz have pos: "0 < a0 * a0 + a1 * a1" by linarith
  then show "0 < p" unfolding p_def by simp
  have "p * p = a0 * a0 + a1 * a1" unfolding p_def using nn by simp
  then have "(a0 * a0 + a1 * a1) / (p * p) = 1" using nz by simp
  then show "(a0 / p) * (a0 / p) + (a1 / p) * (a1 / p) = 1"
    by (simp add: add_divide_distrib)
qed

lemma azimuth_trig:
  fixes n0 n1 :: real
  assumes "n0 * n0 + n1 * n1 = 1"
  shows "- 1 \<le> n0" "n0 \<le> 1"
    and "cos (arccos n0) = n0"
    and "sin (arccos n0) = \<bar>n1\<bar>"
proof -
  have "n0 * n0 \<le> 1" using assms by (smt (verit) zero_le_square)
  then have a: "\<bar>n0\<bar> \<le> 1"
    by (metis abs_le_square_iff abs_one power2_eq_square one_power2)
  then show "- 1 \<le> n0" "n0 \<le> 1" by linarith+
  from a show "cos (arccos n0) = n0" by (rule cos_arccos_abs)
  have "1 - n0\<^sup>2 = n1\<^sup>2" using assms by (simp add: power2_eq_square)
  then show "sin (arccos n0) = \<bar>n1\<bar>" using sin_arccos_abs[OF a] by simp
qed

lemma signed_arccos:
  fixes n0 n1 :: real
  assumes u: "n0 * n0 + n1 * n1 = 1"
  shows "cos (if n1 < 0 then - arccos n0 else arccos n0) = n0"
    and "sin (if n1 < 0 then - arccos n0 else arccos n0) = n1"
  using azimuth_trig(3,4)[OF u] by simp_all

lemma polar_trig:
  fixes n2 :: real
  defines "N \<equiv> sqrt (1 + n2 * n2)"
  shows "0 < N" "- 1 \<le> n2 / N" "n2 / N \<le> 1"
    and "cos (arccos (n2 / N)) = n2 / N"
    and "sin (arccos (n2 / N)) = 1 / N"
    and "N * N = 1 + n2 * n2"
proof -
  have pos: "0 < 1 + n2 * n2" by (smt (verit) zero_le_square)
  then show N0: "0 < N" unfolding N_def by simp
  show NN: "N * N = 1 + n2 * n2" unfolding N_def using pos by simp
  have "(n2 * n2 + 1) / (N * N) = 1" using pos NN by simp
  then have "(n2 / N) * (n2 / N) + (1 / N) * (1 / N) = 1"
    by (simp add: add_divide_distrib)
  from azimuth_trig[OF this] N0
  show "- 1 \<le> n2 / N" "n2 / N \<le> 1" "cos (arccos (n2 / N)) = n2 / N"
    "sin (arccos (n2 / N)) = 1 / N" by simp_all
qed

text \<open>The rotation about Z takes the vector into the XZ half-plane of positive x.\<close>

lemma azimuth_step:
  fixes n0 n1 n2 :: real
  assumes u: "n0 * n0 + n1 * n1 = 1"
  defines "t \<equiv> (if n1 < 0 then - arccos n0 else arccos n0)"
  shows "mat_vec (transpose3 (Rz (Fin t))) (Fin n0, Fin n1, Fin n2) = (Fin 1, Fin 0, Fin n2)"
proof -
  have c: "cos t = n0" unfolding t_def by (rule signed_arccos(1)[OF u])
  have s: "sin t = n1" unfolding t_def by (rule signed_arccos(2)[OF u])
  show ?thesis
    using u by (simp add: Rz_def c s mult.commute)
qed

text \<open>The rotation about Y then takes it onto the Z axis.\<close>

lemma polar_step:
  fixes n2 :: real
  defines "N \<equiv> sqrt (1 + n2 * n2)"
  shows "vdiv (mat_vec (transpose3 (Ry (Fin (arccos (n2 / N))))) (Fin 1, Fin 0, Fin n2)) (Fin N)
           = (Fin 0, Fin 0, Fin 1)"
proof -
  note pt = polar_trig[of n2, folded N_def]
  have "1 / N + n2 * n2 / N = N"
    using pt(1) pt(6) by (simp add: field_simps)
  then show ?thesis
    using pt(1) by (simp add: Ry_def pt(4) pt(5))
qed

lemma align_steps_finite:
  fixes a0 a1 a2 :: real
  assumes nz: "a0 * a0 + a1 * a1 \<noteq> 0"
  defines "p \<equiv> sqrt (a0 * a0 + a1 * a1)"
  defines "t \<equiv> (if a1 / p < 0 then - arccos (a0 / p) else arccos (a0 / p))"
  defines "N \<equiv> sqrt (1 + (a2 / p) * (a2 / p))"
  shows "align_steps (Fin a0, Fin a1, Fin a2) =
           (Rz (Fin t), Ry (Fin (arccos ((a2 / p) / N))), (Fin 0, Fin 0, Fin 1))"
proof -
  note pu = planar_unit[OF nz, folded p_def]
  note at = azimuth_trig[OF pu(1)]
  note pt = polar_trig[of "a2 / p", folded N_def]
  have ax1: "vdiv (Fin a0, Fin a1, Fin a2) (norm_planar (Fin a0, Fin a1, Fin a2))
               = (Fin (a0 / p), Fin (a1 / p), Fin (a2 / p))"
    using nz by (auto simp add: p_def not_sum_squares_lt_zero)
  have ang: "(if flt (Fin (a1 / p)) (Fin 0) then fmul (farccos (Fin (a0 / p))) (Fin (- 1))
               else farccos (Fin (a0 / p))) = Fin t"
    using at(1,2) by (simp add: t_def)
  have ax2: "mat_vec (transpose3 (Rz (Fin t))) (Fin (a0 / p), Fin (a1 / p), Fin (a2 / p))
               = (Fin 1, Fin 0, Fin (a2 / p))"
    unfolding t_def by (rule azimuth_step[OF pu(1)])
  have n3: "norm3 (Fin 1, Fin 0, Fin (a2 / p)) = Fin N"
    using pt(1) by (simp add: N_def)
  have ang2: "farccos (fdiv (Fin (a2 / p)) (Fin N)) = Fin (arccos ((a2 / p) / N))"
    using pt(1,2,3) by simp
  have ax3: "vdiv (mat_vec (transpose3 (Ry (Fin (arccos ((a2 / p) / N))))) (Fin 1, Fin 0, Fin (a2 / p))) (Fin N)
               = (Fin 0, Fin 0, Fin 1)"
    unfolding N_def by (rule polar_step)
  have nf: "\<not> flt (Fin 1) (Fin 0)" by simp
  show ?thesis
    unfolding align_steps_def Let_def
    by (simp only: ax1 fst_conv snd_conv ang ax2 n3 ang2 nf if_False ax3)
qed





text \<open>
  A vector whose planar part is zero or not finite, or whose third component is not
  finite, ends as three \<open>nan\<close>.
\<close>

lemma align_nonfinite_planar:
  assumes "\<not> (\<exists>a0 a1. x = Fin a0 \<and> y = Fin a1 \<and> a0 * a0 + a1 * a1 \<noteq> 0)"
  shows "aligned_axis (x, y, z) = (NaN, NaN, NaN)"
  using assms
  apply (cases x; cases y; cases z)
  apply (simp_all add: aligned_axis_def align_steps_def Let_def Rz_def Ry_def signed_inf_def)
  done

lemma align_nonfinite_z:
  assumes "\<forall>a2. z \<noteq> Fin a2"
  shows "aligned_axis (x, y, z) = (NaN, NaN, NaN)"
proof (cases "\<exists>a0 a1. x = Fin a0 \<and> y = Fin a1 \<and> a0 * a0 + a1 * a1 \<noteq> 0")
  case False
  then show ?thesis by (rule align_nonfinite_planar)
next
  case True
  then obtain a0 a1 where x: "x = Fin a0" and y: "y = Fin a1" and nz: "a0 * a0 + a1 * a1 \<noteq> 0"
    by blast
  define p where "p = sqrt (a0 * a0 + a1 * a1)"
  define t where "t = (if a1 / p < 0 then - arccos (a0 / p) else arccos (a0 / p))"
  note pu = planar_unit[OF nz, folded p_def]
  note at = azimuth_trig[OF pu(1)]
  have zd: "fdiv z (Fin p) = z"
    using assms pu(2) by (cases z) auto
  have ax1: "vdiv (x, y, z) (norm_planar (x, y, z)) = (Fin (a0 / p), Fin (a1 / p), z)"
    using nz zd by (auto simp add: x y p_def not_sum_squares_lt_zero)
  have ang: "(if flt (Fin (a1 / p)) (Fin 0) then fmul (farccos (Fin (a0 / p))) (Fin (- 1))
               else farccos (Fin (a0 / p))) = Fin t"
    using at(1,2) by (simp add: t_def)
  have ax2: "mat_vec (transpose3 (Rz (Fin t))) (Fin (a0 / p), Fin (a1 / p), z) = (NaN, NaN, z)"
    using assms by (cases z) (auto simp: Rz_def signed_inf_def)
  have n3: "norm3 (NaN, NaN, z) = NaN" by simp
  have ax3: "vdiv v NaN = (NaN, NaN, NaN)" for v
    by (cases v) simp
  show ?thesis
    unfolding aligned_axis_def align_steps_def Let_def
    by (simp only: ax1 fst_conv snd_conv ang ax2 n3 ax3)
qed

lemma ZAxisAligner_fails:
  assumes "\<not> (\<exists>a0 a1 a2. a = (Fin a0, Fin a1, Fin a2) \<and> a0 * a0 + a1 * a1 \<noteq> 0)"
  shows "ZAxisAligner a = Inl (ValueError_axis (NaN, NaN, NaN))"
proof -
  obtain x y z where a: "a = (x, y, z)" by (cases a)
  have "aligned_axis a = (NaN, NaN, NaN)"
  proof (cases "\<exists>a2. z = Fin a2")
    case True
    with assms a have "\<not> (\<exists>a0 a1. x = Fin a0 \<and> y = Fin a1 \<and> a0 * a0 + a1 * a1 \<noteq> 0)"
      by auto
    then show ?thesis unfolding a by (rule align_nonfinite_planar)
  next
    case False
    then show ?thesis unfolding a by (intro align_nonfinite_z) simp
  qed
  then obtain rz ry where "align_steps a = (rz, ry, (NaN, NaN, NaN))"
    unfolding aligned_axis_def by (cases "align_steps a") auto
  then show ?thesis
    by (simp add: ZAxisAligner_def)
qed

lemma ZAxisAligner_succeeds:
  fixes a0 a1 a2 :: real
  assumes nz: "a0 * a0 + a1 * a1 \<noteq> 0"
  defines "p \<equiv> sqrt (a0 * a0 + a1 * a1)"
  defines "t \<equiv> (if a1 / p < 0 then - arccos (a0 / p) else arccos (a0 / p))"
  defines "u \<equiv> arccos ((a2 / p) / sqrt (1 + (a2 / p) * (a2 / p)))"
  shows "ZAxisAligner (Fin a0, Fin a1, Fin a2) =
           Inr \<lparr>Rz_of = Rz (Fin t), Ry_of = Ry (Fin u),
                backward_rotation = mat_mul (transpose3 (Ry (Fin u))) (transpose3 (Rz (Fin t))),
                forward_rotation = mat_mul (Rz (Fin t)) (Ry (Fin u))\<rparr>"
proof -
  have ok: "allclose3 (Fin 0, Fin 0, Fin 1) (Fin 0, Fin 0, Fin 1)" by simp
  show ?thesis
    unfolding ZAxisAligner_def
    by (simp only: align_steps_finite[OF nz, folded p_def, folded t_def]
        prod.case ok not_True_eq_False if_False u_def)
qed



text \<open>The aligner of the X axis: no turn about Z, a quarter turn about Y.\<close>

lemma aligner_x:
  "ZAxisAligner (Fin 1, Fin 0, Fin 0) =
     Inr \<lparr>Rz_of = Rz (Fin 0), Ry_of = Ry (Fin (pi / 2)),
          backward_rotation = mat_mul (transpose3 (Ry (Fin (pi / 2)))) (transpose3 (Rz (Fin 0))),
          forward_rotation = mat_mul (Rz (Fin 0)) (Ry (Fin (pi / 2)))\<rparr>"
proof -
  have n1: "(1::real) * 1 + 0 * 0 \<noteq> 0" by simp
  show ?thesis using ZAxisAligner_succeeds[OF n1, of 0] by simp
qed

lemma forward_x:
  "mat_mul (Rz (Fin 0)) (Ry (Fin (pi / 2))) =
     ((Fin 0, Fin 0, Fin 1), (Fin 0, Fin 1, Fin 0), (Fin (- 1), Fin 0, Fin 0))"
  by (simp add: mat_mul_def Rz_def Ry_def)

lemma backward_x:
  "mat_mul (transpose3 (Ry (Fin (pi / 2)))) (transpose3 (Rz (Fin 0))) =
     ((Fin 0, Fin 0, Fin (- 1)), (Fin 0, Fin 1, Fin 0), (Fin 1, Fin 0, Fin 0))"
  by (simp add: mat_mul_def Rz_def Ry_def)



text \<open>
  Claim C10. For every input vector whose x and y components are both zero, whatever its
  z component, the planar magnitude by which the constructor divides is zero, the
  computed axis is three \<open>nan\<close>, and the construction fails with the \<open>ValueError\<close> of the
  alignment check: no aligner is produced.
\<close>

theorem ZAxisAligner_z_parallel_fails:
  "norm_planar (Fin 0, Fin 0, c) = Fin 0 \<and>
   aligned_axis (Fin 0, Fin 0, c) = (NaN, NaN, NaN) \<and>
   ZAxisAligner (Fin 0, Fin 0, c) = Inl (ValueError_axis (NaN, NaN, NaN))"
proof -
  have "\<not> (\<exists>a0 a1. Fin 0 = Fin a0 \<and> Fin 0 = Fin a1 \<and> a0 * a0 + a1 * a1 \<noteq> 0)"
    by simp
  then have "aligned_axis (Fin 0, Fin 0, c) = (NaN, NaN, NaN)"
    by (rule align_nonfinite_planar)
  moreover have "ZAxisAligner (Fin 0, Fin 0, c) = Inl (ValueError_axis (NaN, NaN, NaN))"
    by (rule ZAxisAligner_fails) simp
  ultimately show ?thesis by simp
qed

theorem ZAxisAligner_z_parallel_fails_witness:
  "ZAxisAligner (Fin 0, Fin 0, Fin 1) = Inl (ValueError_axis (NaN, NaN, NaN))"
  using ZAxisAligner_z_parallel_fails[of "Fin 1"] by simp


section \<open>Radians and degrees\<close>

lemma deg2rad_Fin: "deg2rad (Fin a) = Fin (a * pi / 180)"
  by (simp add: deg2rad_def)

lemma Rz_eq_iff: "Rz (Fin x) = Rz (Fin y) \<longleftrightarrow> (\<exists>n::int. x = y + 2 * pi * n)"
proof -
  have "Rz (Fin x) = Rz (Fin y) \<longleftrightarrow> sin x = sin y \<and> cos x = cos y"
    by (auto simp add: Rz_def)
  then show ?thesis using sin_cos_eq_iff[of x y] by simp
qed

lemma coincidence:
  fixes a :: real
  shows "(\<exists>n::int. a = a * pi / 180 + 2 * pi * n) \<longleftrightarrow> (\<exists>k::int. a = k * (360 * pi / (180 - pi)))"
proof -
  have pos: "0 < 180 - pi" using pi_less_4 by linarith
  have "a = a * pi / 180 + 2 * pi * n \<longleftrightarrow> a = n * (360 * pi / (180 - pi))" for n :: int
  proof -
    have "a = a * pi / 180 + 2 * pi * n \<longleftrightarrow> a * (180 - pi) = 360 * pi * n"
      by (simp add: field_simps)
    also have "\<dots> \<longleftrightarrow> a = n * (360 * pi / (180 - pi))"
      using pos by (simp add: field_simps)
    finally show ?thesis .
  qed
  then show ?thesis by simp
qed


section \<open>Properties of the quaternion conversion\<close>

















section \<open>Properties of the random rotations\<close>

lemma draw_pair_result:
  assumes "draw_pair src k = Some r"
  shows "fst (fst r) * fst (fst r) + snd (fst r) * snd (fst r) < 1 \<and> k < snd r \<and>
         src (snd r - 1) = fst r"
proof (rule draw_pair.raw_induct[where P = "\<lambda>src k r.
          fst (fst r) * fst (fst r) + snd (fst r) * snd (fst r) < 1 \<and> k < snd r \<and>
          src (snd r - 1) = fst r", OF _ assms], goal_cases)
  case (1 dp src k r)
  show ?case
  proof (cases "1 \<le> fst (src k) * fst (src k) + snd (src k) * snd (src k)")
    case True
    with 1(2) have "dp src (Suc k) = Some r" by (simp add: case_prod_beta)
    from 1(1)[OF this] show ?thesis by simp
  next
    case False
    with 1(2) have "r = (src k, Suc k)" by (auto simp add: case_prod_beta)
    with False show ?thesis by simp
  qed
qed

lemma draw_pair_accepted:
  assumes "draw_pair src k = Some ((e1, e2), k')"
  shows "e1 * e1 + e2 * e2 < 1"
  using draw_pair_result[OF assms] by simp

lemma quat_of_variates_unit:
  fixes e1 e2 e3 e4 :: real
  assumes s1: "e1 * e1 + e2 * e2 < 1" and s2: "0 < e3 * e3 + e4 * e4"
  defines "r \<equiv> sqrt ((1 - (e1 * e1 + e2 * e2)) / (e3 * e3 + e4 * e4))"
  shows "quat_of_variates e1 e2 e3 e4 = (Fin e1, Fin e2, Fin (e3 * r), Fin (e4 * r))"
    and "e1 * e1 + e2 * e2 + (e3 * r) * (e3 * r) + (e4 * r) * (e4 * r) = 1"
    and "quat_norm (quat_of_variates e1 e2 e3 e4) = Fin 1"
proof -
  have nn: "0 \<le> (1 - (e1 * e1 + e2 * e2)) / (e3 * e3 + e4 * e4)"
    using s1 s2 by simp
  have ne: "e3 * e3 + e4 * e4 \<noteq> 0" by (metis s2 less_irrefl)
  show q: "quat_of_variates e1 e2 e3 e4 = (Fin e1, Fin e2, Fin (e3 * r), Fin (e4 * r))"
    using ne nn by (auto simp add: quat_of_variates_def Let_def r_def not_less)
  have rr: "r * r = (1 - (e1 * e1 + e2 * e2)) / (e3 * e3 + e4 * e4)"
    unfolding r_def using nn by (simp only: real_sqrt_mult_self abs_of_nonneg)
  have "(e3 * r) * (e3 * r) + (e4 * r) * (e4 * r) = (e3 * e3 + e4 * e4) * (r * r)"
    by (simp add: algebra_simps)
  also have "\<dots> = 1 - (e1 * e1 + e2 * e2)" unfolding rr using ne by simp
  finally have yz: "(e3 * r) * (e3 * r) + (e4 * r) * (e4 * r) = 1 - (e1 * e1 + e2 * e2)" .
  then show u: "e1 * e1 + e2 * e2 + (e3 * r) * (e3 * r) + (e4 * r) * (e4 * r) = 1"
    by simp
  show "quat_norm (quat_of_variates e1 e2 e3 e4) = Fin 1"
    unfolding q using u by simp
qed

text \<open>
  Claim C6. Whenever the two rejection loops of \<open>random_rotation\<close> accept the pairs
  \<open>(e1, e2)\<close> and \<open>(e3, e4)\<close>, both have a squared norm below 1; if moreover the second
  pair is not (0, 0), the quaternion returned is
  \<open>(e1, e2, e3 * sqrt ((1 - s1) / s2), e4 * sqrt ((1 - s1) / s2))\<close> and its norm is exactly 1
  in exact real arithmetic.
\<close>

theorem random_rotation_unit_norm:
  assumes d1: "draw_pair src k = Some ((e1, e2), k1)"
    and d2: "draw_pair src k1 = Some ((e3, e4), k2)"
    and s2: "0 < e3 * e3 + e4 * e4"
  shows "e1 * e1 + e2 * e2 < 1 \<and> e3 * e3 + e4 * e4 < 1 \<and>
         random_rotation src k =
           Some ((Fin e1, Fin e2,
                  Fin (e3 * sqrt ((1 - (e1 * e1 + e2 * e2)) / (e3 * e3 + e4 * e4))),
                  Fin (e4 * sqrt ((1 - (e1 * e1 + e2 * e2)) / (e3 * e3 + e4 * e4)))), k2) \<and>
         quat_norm (Fin e1, Fin e2,
                  Fin (e3 * sqrt ((1 - (e1 * e1 + e2 * e2)) / (e3 * e3 + e4 * e4))),
                  Fin (e4 * sqrt ((1 - (e1 * e1 + e2 * e2)) / (e3 * e3 + e4 * e4)))) = Fin 1"
proof -
  have a1: "e1 * e1 + e2 * e2 < 1" using draw_pair_accepted[OF d1] by simp
  have a2: "e3 * e3 + e4 * e4 < 1" using draw_pair_accepted[OF d2] by simp
  note qu = quat_of_variates_unit[OF a1 s2]
  have "random_rotation src k = Some (quat_of_variates e1 e2 e3 e4, k2)"
    by (simp add: random_rotation_def d1 d2)
  then show ?thesis using a1 a2 qu(1) qu(3) by simp
qed

lemma draw_half: "draw_pair (\<lambda>_. (0, 1 / 2)) k = Some ((0, 1 / 2), Suc k)"
  by (subst draw_pair.simps) simp

theorem random_rotation_unit_norm_witness:
  "\<exists>q. random_rotation (\<lambda>_. (0, 1 / 2)) 0 = Some (q, Suc (Suc 0)) \<and> quat_norm q = Fin 1"
proof -
  have s: "(0::real) < 0 * 0 + 1 / 2 * (1 / 2)" by simp
  from random_rotation_unit_norm[OF draw_half draw_half s] show ?thesis by blast
qed

lemma random_rotation_first:
  assumes "random_rotation src k = Some (quat, k')"
  shows "\<exists>e1. fst quat = Fin e1 \<and> - 1 < e1 \<and> e1 < 1"
proof -
  from assms obtain e1 e2 k1 e3 e4 where d1: "draw_pair src k = Some ((e1, e2), k1)"
    and q: "quat = quat_of_variates e1 e2 e3 e4"
    by (auto simp add: random_rotation_def split: option.splits prod.splits)
  have s: "e1 * e1 + e2 * e2 < 1" by (rule draw_pair_accepted[OF d1])
  have "0 \<le> e2 * e2" by simp
  with s have "e1 * e1 < 1" by linarith
  then have "\<bar>e1\<bar> < 1"
    by (metis abs_square_less_1 power2_eq_square)
  then have "- 1 < e1 \<and> e1 < 1" by linarith
  moreover have "fst quat = Fin e1" by (simp add: q quat_of_variates_def Let_def)
  ultimately show ?thesis by blast
qed

lemma local_loop_result:
  assumes "local_loop src k rma n quats = Some r"
  shows "\<exists>new. fst r = quats @ new @ [identity_quat] \<and>
           (\<forall>q \<in> set new. fle (rotation_angle q) rma) \<and>
           (int (length quats) \<le> n - 1 \<longrightarrow> int (length (quats @ new)) = n - 1)"
proof (rule local_loop.raw_induct[where P = "\<lambda>src k rma n quats r.
          \<exists>new. fst r = quats @ new @ [identity_quat] \<and>
           (\<forall>q \<in> set new. fle (rotation_angle q) rma) \<and>
           (int (length quats) \<le> n - 1 \<longrightarrow> int (length (quats @ new)) = n - 1)", OF _ assms],
       goal_cases)
  case (1 ll src k rma n quats r)
  show ?case
  proof (cases "int (length quats) < n - 1")
    case False
    with 1(2) have "fst r = quats @ [] @ [identity_quat]" by auto
    moreover from False have "int (length quats) \<le> n - 1 \<longrightarrow> int (length (quats @ [])) = n - 1"
      by simp
    ultimately show ?thesis by (intro exI[of _ "[]"]) simp
  next
    case True
    with 1(2) obtain quat k' where rr: "random_rotation src k = Some (quat, k')"
      and body: "(if fle (rotation_angle quat) rma then ll src k' rma n (quats @ [quat])
                  else ll src k' rma n quats) = Some r"
      by (auto split: option.splits)
    show ?thesis
    proof (cases "fle (rotation_angle quat) rma")
      case acc: True
      with body have "ll src k' rma n (quats @ [quat]) = Some r" by simp
      from 1(1)[OF this] obtain new where n1: "fst r = (quats @ [quat]) @ new @ [identity_quat]"
        and n2: "\<forall>q \<in> set new. fle (rotation_angle q) rma"
        and n3: "int (length (quats @ [quat])) \<le> n - 1 \<longrightarrow> int (length ((quats @ [quat]) @ new)) = n - 1"
        by blast
      have "fst r = quats @ (quat # new) @ [identity_quat]" using n1 by simp
      moreover have "\<forall>q \<in> set (quat # new). fle (rotation_angle q) rma" using n2 acc by simp
      moreover have "int (length (quats @ (quat # new))) = n - 1" using n3 True by simp
      ultimately show ?thesis by blast
    next
      case False
      with body have "ll src k' rma n quats = Some r" by simp
      from 1(1)[OF this] show ?thesis .
    qed
  qed
qed

lemma local_loop_never:
  assumes never: "\<And>e1. - 1 < e1 \<Longrightarrow> e1 < 1 \<Longrightarrow> \<not> fle (Fin (2 * arccos e1)) rma0"
    and n0: "2 \<le> n0"
  shows "local_loop src0 k0 rma0 n0 [] = None"
proof (rule ccontr)
  assume "local_loop src0 k0 rma0 n0 [] \<noteq> None"
  then obtain r where r: "local_loop src0 k0 rma0 n0 [] = Some r" by blast
  have "\<not> (rma0 = rma0 \<and> n0 = n0 \<and> ([]::quat list) = [])"
  proof (rule local_loop.raw_induct[where P = "\<lambda>src k rma n quats r.
            \<not> (rma = rma0 \<and> n = n0 \<and> quats = [])", OF _ r], goal_cases)
    case (1 ll src k rma n quats r)
    show ?case
    proof
      assume a: "rma = rma0 \<and> n = n0 \<and> quats = []"
      with n0 have lt: "int (length quats) < n - 1" by simp
      with 1(2) obtain quat k' where rr: "random_rotation src k = Some (quat, k')"
        and body: "(if fle (rotation_angle quat) rma then ll src k' rma n (quats @ [quat])
                    else ll src k' rma n quats) = Some r"
        by (auto split: option.splits)
      from random_rotation_first[OF rr] obtain e1 where e: "fst quat = Fin e1" "- 1 < e1" "e1 < 1"
        by blast
      then have "rotation_angle quat = Fin (2 * arccos e1)"
        by (simp add: rotation_angle_def)
      with never[OF e(2,3)] a have "\<not> fle (rotation_angle quat) rma" by simp
      with body have "ll src k' rma n quats = Some r" by simp
      from 1(1)[OF this] a show False by simp
    qed
  qed
  then show False by simp
qed

lemma arccos_pos: "- 1 < e1 \<Longrightarrow> e1 < 1 \<Longrightarrow> 0 < arccos (e1::real)"
  using arccos_lt_bounded[of e1] by simp

lemma local_never_nonpositive:
  assumes "m \<le> 0" "2 \<le> n"
  shows "RotationSets_local src k (Fin m) n = None"
  unfolding RotationSets_local_def
proof (rule local_loop_never[OF _ assms(2)])
  fix e1 :: real assume "- 1 < e1" "e1 < 1"
  then have "0 < arccos e1" by (rule arccos_pos)
  moreover have "m * pi / 180 \<le> 0" using assms(1) by (simp add: mult_nonpos_nonneg divide_nonpos_pos)
  ultimately show "\<not> fle (Fin (2 * arccos e1)) (deg2rad (Fin m))"
    by (simp add: deg2rad_def)
qed

text \<open>A rejection loop returns exactly the first accepted draw.\<close>

lemma draw_pair_first:
  assumes "first_accepted src k i"
  shows "draw_pair src k = Some (src i, Suc i)"
  using assms
proof (induction "i - k" arbitrary: k)
  case 0
  then have "i = k" by (simp add: first_accepted_def)
  with 0(2) have "\<not> 1 \<le> fst (src k) * fst (src k) + snd (src k) * snd (src k)"
    by (simp add: first_accepted_def accepted_def)
  then show ?case using \<open>i = k\<close> by (subst draw_pair.simps) (simp add: case_prod_beta)
next
  case (Suc d)
  then have lt: "k < i" by simp
  with Suc(3) have na: "\<not> accepted src k" by (auto simp add: first_accepted_def)
  have f: "first_accepted src (Suc k) i"
    using Suc(3) lt by (auto simp add: first_accepted_def)
  have "d = i - Suc k" using Suc(2) by simp
  from Suc(1)[OF this f] have "draw_pair src (Suc k) = Some (src i, Suc i)" .
  moreover from na have "1 \<le> fst (src k) * fst (src k) + snd (src k) * snd (src k)"
    by (simp add: accepted_def)
  ultimately show ?case by (subst draw_pair.simps) (simp add: case_prod_beta)
qed

lemma draw_pair_only_first:
  assumes "draw_pair src k = Some r"
  shows "\<exists>i. first_accepted src k i \<and> r = (src i, Suc i)"
proof (rule draw_pair.raw_induct[where P = "\<lambda>src k r.
          \<exists>i. first_accepted src k i \<and> r = (src i, Suc i)", OF _ assms], goal_cases)
  case (1 dp src k r)
  show ?case
  proof (cases "1 \<le> fst (src k) * fst (src k) + snd (src k) * snd (src k)")
    case True
    with 1(2) have "dp src (Suc k) = Some r" by (simp add: case_prod_beta)
    from 1(1)[OF this] obtain i where i: "first_accepted src (Suc k) i" and r: "r = (src i, Suc i)"
      by blast
    have "first_accepted src k i"
      unfolding first_accepted_def
    proof (intro conjI allI impI)
      show "k \<le> i" using i by (simp add: first_accepted_def)
      show "accepted src i" using i by (simp add: first_accepted_def)
      fix j assume j: "k \<le> j \<and> j < i"
      show "\<not> accepted src j"
      proof (cases "j = k")
        case True
        with \<open>1 \<le> fst (src k) * fst (src k) + snd (src k) * snd (src k)\<close>
        show ?thesis by (simp add: accepted_def)
      next
        case False
        with j have "Suc k \<le> j \<and> j < i" by simp
        with i show ?thesis by (simp add: first_accepted_def)
      qed
    qed
    with r show ?thesis by blast
  next
    case False
    with 1(2) have "r = (src k, Suc k)" by (auto simp add: case_prod_beta)
    moreover from False have "first_accepted src k k"
      by (simp add: first_accepted_def accepted_def)
    ultimately show ?thesis by blast
  qed
qed

lemma draw_pair_iff:
  "draw_pair src k = Some r \<longleftrightarrow> (\<exists>i. first_accepted src k i \<and> r = (src i, Suc i))"
  using draw_pair_first draw_pair_only_first by blast

lemma random_rotation_iff:
  "random_rotation src k = Some (q, k') \<longleftrightarrow>
     (\<exists>i j. first_accepted src k i \<and> first_accepted src (Suc i) j \<and>
            q = quat_of_variates (fst (src i)) (snd (src i)) (fst (src j)) (snd (src j)) \<and>
            k' = Suc j)"
proof
  assume "random_rotation src k = Some (q, k')"
  then obtain e1 e2 k1 e3 e4 where d1: "draw_pair src k = Some ((e1, e2), k1)"
    and d2: "draw_pair src k1 = Some ((e3, e4), k')"
    and q: "q = quat_of_variates e1 e2 e3 e4"
    by (auto simp add: random_rotation_def split: option.splits prod.splits)
  from draw_pair_only_first[OF d1] obtain i where i: "first_accepted src k i"
    and r1: "((e1, e2), k1) = (src i, Suc i)" by blast
  from draw_pair_only_first[OF d2] r1 obtain j where j: "first_accepted src (Suc i) j"
    and r2: "((e3, e4), k') = (src j, Suc j)" by auto
  have "q = quat_of_variates (fst (src i)) (snd (src i)) (fst (src j)) (snd (src j))"
    using q r1 r2 by (metis fst_conv snd_conv)
  with i j r2 show "\<exists>i j. first_accepted src k i \<and> first_accepted src (Suc i) j \<and>
            q = quat_of_variates (fst (src i)) (snd (src i)) (fst (src j)) (snd (src j)) \<and>
            k' = Suc j" by auto
next
  assume "\<exists>i j. first_accepted src k i \<and> first_accepted src (Suc i) j \<and>
            q = quat_of_variates (fst (src i)) (snd (src i)) (fst (src j)) (snd (src j)) \<and>
            k' = Suc j"
  then obtain i j where i: "first_accepted src k i" and j: "first_accepted src (Suc i) j"
    and q: "q = quat_of_variates (fst (src i)) (snd (src i)) (fst (src j)) (snd (src j))"
    and k': "k' = Suc j" by blast
  show "random_rotation src k = Some (q, k')"
    by (simp add: random_rotation_def draw_pair_first[OF i] draw_pair_first[OF j] q k'
        case_prod_beta)
qed

lemma local_loop_collects:
  assumes "local_loop src k rma n quats = Some r"
  shows "\<exists>new. collects src rma k (nat (n - 1 - int (length quats))) new (snd r) \<and>
               fst r = quats @ new @ [identity_quat]"
proof (rule local_loop.raw_induct[where P = "\<lambda>src k rma n quats r.
          \<exists>new. collects src rma k (nat (n - 1 - int (length quats))) new (snd r) \<and>
               fst r = quats @ new @ [identity_quat]", OF _ assms], goal_cases)
  case (1 ll src k rma n quats r)
  show ?case
  proof (cases "int (length quats) < n - 1")
    case False
    with 1(2) have r: "r = (quats @ [identity_quat], k)" by auto
    from False have "nat (n - 1 - int (length quats)) = 0" by simp
    then show ?thesis using r collects.enough[of src rma k] by (intro exI[of _ "[]"]) simp
  next
    case True
    then obtain m where m: "nat (n - 1 - int (length quats)) = Suc m"
      by (cases "nat (n - 1 - int (length quats))") auto
    from True 1(2) obtain quat k1 where rr: "random_rotation src k = Some (quat, k1)"
      and body: "(if fle (rotation_angle quat) rma then ll src k1 rma n (quats @ [quat])
                  else ll src k1 rma n quats) = Some r"
      by (auto split: option.splits)
    show ?thesis
    proof (cases "fle (rotation_angle quat) rma")
      case acc: True
      with body have "ll src k1 rma n (quats @ [quat]) = Some r" by simp
      from 1(1)[OF this] obtain new where
        c: "collects src rma k1 (nat (n - 1 - int (length (quats @ [quat])))) new (snd r)"
        and f: "fst r = (quats @ [quat]) @ new @ [identity_quat]" by blast
      have "nat (n - 1 - int (length (quats @ [quat]))) = m" using m by simp
      with c have "collects src rma k1 m new (snd r)" by simp
      from collects.keep[OF rr acc this] f m show ?thesis
        by (intro exI[of _ "quat # new"]) simp
    next
      case False
      with body have "ll src k1 rma n quats = Some r" by simp
      from 1(1)[OF this] obtain new where
        c: "collects src rma k1 (nat (n - 1 - int (length quats))) new (snd r)"
        and f: "fst r = quats @ new @ [identity_quat]" by blast
      from c m have "collects src rma k1 (Suc m) new (snd r)" by simp
      from collects.reject[OF rr False this] f m show ?thesis by auto
    qed
  qed
qed

lemma collects_local_loop:
  assumes "collects src rma k m new k'"
  shows "nat (n - 1 - int (length quats)) = m \<Longrightarrow>
         local_loop src k rma n quats = Some (quats @ new @ [identity_quat], k')"
  using assms
proof (induction arbitrary: quats rule: collects.induct)
  case (enough k)
  then have "\<not> int (length quats) < n - 1" by simp
  then show ?case by (subst local_loop.simps) simp
next
  case (keep k q k1 m qs k')
  from keep.prems have lt: "int (length quats) < n - 1" by linarith
  have "nat (n - 1 - int (length (quats @ [q]))) = m" using keep.prems by simp
  from keep.IH[OF this]
  have "local_loop src k1 rma n (quats @ [q]) = Some ((quats @ [q]) @ qs @ [identity_quat], k')" .
  then show ?case using lt keep.hyps(1,2) by (subst local_loop.simps) simp
next
  case (reject k q k1 m qs k')
  from reject.prems have lt: "int (length quats) < n - 1" by linarith
  from reject.IH[OF reject.prems]
  have "local_loop src k1 rma n quats = Some (quats @ qs @ [identity_quat], k')" .
  then show ?case using lt reject.hyps(1,2) by (subst local_loop.simps) simp
qed

lemma collects_result:
  assumes "collects src rma k m new k'"
  shows "length new = m \<and> (\<forall>q \<in> set new. fle (rotation_angle q) rma) \<and> k \<le> k'"
  using assms
proof (induction rule: collects.induct)
  case (enough k)
  show ?case by simp
next
  case (keep k q k1 m qs k')
  from keep.hyps(1) have "k \<le> k1"
    by (auto simp add: random_rotation_iff first_accepted_def)
  with keep show ?case by simp
next
  case (reject k q k1 m qs k')
  from reject.hyps(1) have "k \<le> k1"
    by (auto simp add: random_rotation_iff first_accepted_def)
  with reject show ?case by simp
qed

lemma next_accepted:
  assumes "\<exists>j. k \<le> j \<and> accepted src j"
  shows "\<exists>i. first_accepted src k i"
proof -
  from assms obtain i where "k \<le> i \<and> accepted src i" "\<forall>m<i. \<not> (k \<le> m \<and> accepted src m)"
    using exists_least_iff[of "\<lambda>j. k \<le> j \<and> accepted src j"] by blast
  then have "first_accepted src k i" by (auto simp add: first_accepted_def)
  then show ?thesis ..
qed

lemma accepted_angle:
  assumes "accepted src i"
  shows "rotation_angle (quat_of_variates (fst (src i)) e2 e3 e4) = Fin (2 * arccos (fst (src i)))"
proof -
  have "0 \<le> snd (src i) * snd (src i)" by simp
  with assms have "fst (src i) * fst (src i) < 1" unfolding accepted_def by linarith
  then have "\<bar>fst (src i)\<bar> < 1" by (metis abs_square_less_1 power2_eq_square)
  then have "- 1 \<le> fst (src i) \<and> fst (src i) \<le> 1" by linarith
  then show ?thesis by (simp add: rotation_angle_def quat_of_variates_def Let_def)
qed

lemma random_rotation_supplied:
  assumes "supplies_within src rma"
  shows "\<exists>q k1. random_rotation src k = Some (q, k1) \<and> fle (rotation_angle q) rma"
proof -
  from assms have ex: "\<exists>j. i \<le> j \<and> accepted src j"
    and w: "accepted src i \<Longrightarrow> fle (Fin (2 * arccos (fst (src i)))) rma" for i
    by (simp_all add: supplies_within_def)
  obtain i where i: "first_accepted src k i" using next_accepted[OF ex] by blast
  obtain j where j: "first_accepted src (Suc i) j" using next_accepted[OF ex] by blast
  have a: "accepted src i" using i by (simp add: first_accepted_def)
  have "random_rotation src k =
          Some (quat_of_variates (fst (src i)) (snd (src i)) (fst (src j)) (snd (src j)), Suc j)"
    unfolding random_rotation_iff using i j by blast
  moreover have "fle (rotation_angle (quat_of_variates (fst (src i)) (snd (src i)) (fst (src j)) (snd (src j)))) rma"
    unfolding accepted_angle[OF a] by (rule w[OF a])
  ultimately show ?thesis by blast
qed

lemma local_loop_supplied:
  assumes w: "supplies_within src rma"
  shows "\<exists>res k'. local_loop src k rma n quats = Some (res, k')"
proof (induction "nat (n - 1 - int (length quats))" arbitrary: k quats)
  case 0
  then have "\<not> int (length quats) < n - 1" by simp
  then show ?case by (subst local_loop.simps) simp
next
  case (Suc m)
  then have lt: "int (length quats) < n - 1" by linarith
  obtain quat k1 where rr: "random_rotation src k = Some (quat, k1)"
    and acc: "fle (rotation_angle quat) rma"
    using random_rotation_supplied[OF w] by blast
  have "m = nat (n - 1 - int (length (quats @ [quat])))" using Suc(2) by simp
  from Suc(1)[OF this] obtain res k' where
    "local_loop src k1 rma n (quats @ [quat]) = Some (res, k')" by blast
  then show ?case using lt rr acc by (subst local_loop.simps) simp
qed

text \<open>
  Claim C5, as amended. For every maximal angle and every count of at least 1: whenever
  \<open>local\<close> returns, it returns exactly that many quaternions, the last of them is the
  identity quaternion (1, 0, 0, 0) and every other one has a rotation angle
  \<open>2 * arccos w\<close> of at most the maximal angle in radians. It returns exactly when the
  random source, from the current draw on, yields count - 1 rotations within the angle
  after finitely many random rotations, and it returns these, in order, before the
  identity; a random rotation is the quaternion of the first accepted draw and of the
  first accepted draw after it. So it returns at once for a count of 1, and it returns
  whenever the source never runs out of accepted draws and every accepted draw is within
  the angle. (It does not return for every maximal angle: see the counterexample.)
\<close>

theorem RotationSets_local_result:
  assumes n1: "1 \<le> nrots"
  shows "(\<forall>quats k'. RotationSets_local src k max_angle nrots = Some (quats, k') \<longrightarrow>
            int (length quats) = nrots \<and> last quats = identity_quat \<and>
            (\<forall>q \<in> set (butlast quats). fle (rotation_angle q) (deg2rad max_angle))) \<and>
         (\<forall>quats k'. RotationSets_local src k max_angle nrots = Some (quats, k') \<longleftrightarrow>
            (\<exists>new. collects src (deg2rad max_angle) k (nat (nrots - 1)) new k' \<and>
                   quats = new @ [identity_quat])) \<and>
         (\<forall>k0 q k'. random_rotation src k0 = Some (q, k') \<longleftrightarrow>
            (\<exists>i j. first_accepted src k0 i \<and> first_accepted src (Suc i) j \<and>
                   q = quat_of_variates (fst (src i)) (snd (src i)) (fst (src j)) (snd (src j)) \<and>
                   k' = Suc j)) \<and>
         (nrots = 1 \<longrightarrow> RotationSets_local src k max_angle nrots = Some ([identity_quat], k)) \<and>
         (supplies_within src (deg2rad max_angle) \<longrightarrow>
            (\<exists>quats k'. RotationSets_local src k max_angle nrots = Some (quats, k')))"
proof -
  have a: "int (length quats) = nrots \<and> last quats = identity_quat \<and>
            (\<forall>q \<in> set (butlast quats). fle (rotation_angle q) (deg2rad max_angle))"
    if "RotationSets_local src k max_angle nrots = Some (quats, k')" for quats k'
  proof -
    from that have "local_loop src k (deg2rad max_angle) nrots [] = Some (quats, k')"
      by (simp add: RotationSets_local_def)
    from local_loop_result[OF this] n1 obtain new where
      q: "quats = new @ [identity_quat]"
      and a: "\<forall>q \<in> set new. fle (rotation_angle q) (deg2rad max_angle)"
      and l: "int (length new) = nrots - 1"
      by auto
    show ?thesis using q a l by simp
  qed
  have b: "RotationSets_local src k max_angle nrots = Some (quats, k') \<longleftrightarrow>
            (\<exists>new. collects src (deg2rad max_angle) k (nat (nrots - 1)) new k' \<and>
                   quats = new @ [identity_quat])" for quats k'
  proof
    assume "RotationSets_local src k max_angle nrots = Some (quats, k')"
    then have "local_loop src k (deg2rad max_angle) nrots [] = Some (quats, k')"
      by (simp add: RotationSets_local_def)
    from local_loop_collects[OF this]
    show "\<exists>new. collects src (deg2rad max_angle) k (nat (nrots - 1)) new k' \<and>
                   quats = new @ [identity_quat]" by simp
  next
    assume "\<exists>new. collects src (deg2rad max_angle) k (nat (nrots - 1)) new k' \<and>
                   quats = new @ [identity_quat]"
    then obtain new where c: "collects src (deg2rad max_angle) k (nat (nrots - 1)) new k'"
      and q: "quats = new @ [identity_quat]" by blast
    have "nat (nrots - 1 - int (length ([]::quat list))) = nat (nrots - 1)" by simp
    from collects_local_loop[OF c this] q
    show "RotationSets_local src k max_angle nrots = Some (quats, k')"
      by (simp add: RotationSets_local_def)
  qed
  have c: "nrots = 1 \<longrightarrow> RotationSets_local src k max_angle nrots = Some ([identity_quat], k)"
    unfolding RotationSets_local_def by (subst local_loop.simps) simp
  have d: "supplies_within src (deg2rad max_angle) \<longrightarrow>
            (\<exists>quats k'. RotationSets_local src k max_angle nrots = Some (quats, k'))"
    unfolding RotationSets_local_def using local_loop_supplied by blast
  show ?thesis
    using a b c d random_rotation_iff[of src] by blast
qed

text \<open>
  A run with both kinds of rejection: the first draw is refused by the rejection test, the
  first random rotation is beyond the half turn and passed over, the second is kept.
\<close>

lemma rejecting_draws:
  "draw_pair rejecting_source 0 = Some ((- 1 / 2, 0), 2)"
  "draw_pair rejecting_source 2 = Some ((0, 1 / 2), 3)"
  "draw_pair rejecting_source 3 = Some ((1 / 2, 0), 4)"
  "draw_pair rejecting_source 4 = Some ((0, 1 / 2), 5)"
proof -
  have f: "first_accepted rejecting_source 0 1" "first_accepted rejecting_source 2 2"
    "first_accepted rejecting_source 3 3" "first_accepted rejecting_source 4 4"
    by (auto simp add: first_accepted_def accepted_def rejecting_source_def)
  show "draw_pair rejecting_source 0 = Some ((- 1 / 2, 0), 2)"
    using draw_pair_first[OF f(1)] by (simp add: rejecting_source_def)
  show "draw_pair rejecting_source 2 = Some ((0, 1 / 2), 3)"
    using draw_pair_first[OF f(2)] by (simp add: rejecting_source_def)
  show "draw_pair rejecting_source 3 = Some ((1 / 2, 0), 4)"
    using draw_pair_first[OF f(3)] by (simp add: rejecting_source_def)
  show "draw_pair rejecting_source 4 = Some ((0, 1 / 2), 5)"
    using draw_pair_first[OF f(4)] by (simp add: rejecting_source_def)
qed

lemma rejecting_rotations:
  "random_rotation rejecting_source 0 = Some (quat_of_variates (- 1 / 2) 0 0 (1 / 2), 3)"
  "random_rotation rejecting_source 3 = Some (quat_of_variates (1 / 2) 0 0 (1 / 2), 5)"
  by (simp_all add: random_rotation_def rejecting_draws)

lemma half_turn_angles:
  "\<not> fle (rotation_angle (quat_of_variates (- 1 / 2) 0 0 (1 / 2))) (deg2rad (Fin 180))"
  "fle (rotation_angle (quat_of_variates (1 / 2) 0 0 (1 / 2))) (deg2rad (Fin 180))"
proof -
  have lt: "arccos (1 / 2) < pi / 2"
    using arccos_less_mono[of "1 / 2" 0] by simp
  have m: "arccos (- (1 / 2)) = pi - arccos (1 / 2)"
    by (rule arccos_minus) simp_all
  show "\<not> fle (rotation_angle (quat_of_variates (- 1 / 2) 0 0 (1 / 2))) (deg2rad (Fin 180))"
    using lt m by (simp add: rotation_angle_def quat_of_variates_def deg2rad_def Let_def)
  show "fle (rotation_angle (quat_of_variates (1 / 2) 0 0 (1 / 2))) (deg2rad (Fin 180))"
    using lt by (simp add: rotation_angle_def quat_of_variates_def deg2rad_def Let_def)
qed

theorem RotationSets_local_result_witness:
  "RotationSets_local rejecting_source 0 (Fin 180) 2 =
     Some ([quat_of_variates (1 / 2) 0 0 (1 / 2), identity_quat], 5)"
proof -
  have n: "(1::int) \<le> 2" by simp
  note t = RotationSets_local_result[OF n, of rejecting_source 0 "Fin 180"]
  have "collects rejecting_source (deg2rad (Fin 180)) 5 0 [] 5" by (rule collects.enough)
  from collects.keep[OF rejecting_rotations(2) half_turn_angles(2) this]
  have "collects rejecting_source (deg2rad (Fin 180)) 3 (Suc 0) [quat_of_variates (1 / 2) 0 0 (1 / 2)] 5" .
  from collects.reject[OF rejecting_rotations(1) half_turn_angles(1) this]
  have c: "collects rejecting_source (deg2rad (Fin 180)) 0 (nat (2 - 1))
             [quat_of_variates (1 / 2) 0 0 (1 / 2)] 5" by simp
  from t have "RotationSets_local rejecting_source 0 (Fin 180) 2
                 = Some ([quat_of_variates (1 / 2) 0 0 (1 / 2), identity_quat], 5) \<longleftrightarrow>
            (\<exists>new. collects rejecting_source (deg2rad (Fin 180)) 0 (nat (2 - 1)) new 5 \<and>
                   [quat_of_variates (1 / 2) 0 0 (1 / 2), identity_quat] = new @ [identity_quat])"
    by (elim conjE) blast
  with c show ?thesis by auto
qed

text \<open>
  With a maximal angle of 0 and a count of 2 the rejection loop never accepts a sample,
  whatever the random source draws: the call does not return.
\<close>

theorem RotationSets_local_never_returns_counterexample:
  "\<not> (\<exists>src k res. RotationSets_local src k (Fin 0) 2 = Some res)"
  using local_never_nonpositive[of 0 2] by simp


section \<open>Properties of the backbone rotator and the translator\<close>

lemma rotate_all_zero:
  assumes "\<forall>x \<in> set xs. fst x = Fin 0"
  shows "rotate_all xs seg = Inr seg"
  using assms by (induction xs) auto

lemma zip_replicate_fst:
  "\<forall>x \<in> set (zip (replicate n v) ys). fst x = v"
  by (auto dest!: set_zip_leftD)

text \<open>
  Rows written at the selected indices, when the value written depends on the index only:
  the selected rows change, every other row stays.
\<close>

lemma assign_rows_by_index:
  assumes "list_all (\<lambda>i. i < length c) sel"
  shows "assign_rows c sel (map g sel) = map (\<lambda>i. if i \<in> set sel then g i else c ! i) [0..<length c]"
  using assms
proof (induction sel arbitrary: c)
  case Nil
  show ?case by (simp add: map_nth)
next
  case (Cons i sel)
  have l: "list_all (\<lambda>j. j < length (c[i := g i])) sel" using Cons.prems by simp
  have "assign_rows c (i # sel) (map g (i # sel)) = assign_rows (c[i := g i]) sel (map g sel)"
    by simp
  also have "\<dots> = map (\<lambda>j. if j \<in> set sel then g j else c[i := g i] ! j) [0..<length (c[i := g i])]"
    by (rule Cons.IH[OF l])
  also have "\<dots> = map (\<lambda>j. if j \<in> set (i # sel) then g j else c ! j) [0..<length c]"
    using Cons.prems by (auto simp add: nth_list_update)
  finally show ?case .
qed

lemma rotate_all_step:
  assumes nz: "t \<noteq> Fin 0" and rg: "list_all (\<lambda>i. i < length c) atoms"
  shows "rotate_all ((t, origin, al, atoms) # steps) c =
           rotate_all steps (map (\<lambda>i. if i \<in> set atoms then turn al t origin (c ! i) else c ! i)
                                 [0..<length c])"
proof -
  have g: "get_xyz c atoms = Inr (map (\<lambda>i. c ! i) atoms)" using rg by (simp add: get_xyz_def)
  have u: "rotate_all ((t, origin, al, atoms) # steps) c =
           (case set_xyz c (map (\<lambda>i. turn al t origin (c ! i)) atoms) atoms of
              Inl e \<Rightarrow> Inl e
            | Inr c' \<Rightarrow> rotate_all steps c')"
    using nz by (simp add: g Let_def turn_def comp_def)
  have s: "set_xyz c (map (\<lambda>i. turn al t origin (c ! i)) atoms) atoms
             = Inr (assign_rows c atoms (map (\<lambda>i. turn al t origin (c ! i)) atoms))"
    using rg by (simp add: set_xyz_def)
  show ?thesis
    unfolding u s assign_rows_by_index[OF rg] by simp
qed

lemma BackboneRotator_new_result:
  assumes new: "BackboneRotator_new st a n angles = Inr (ob, st0)"
  shows "bo_segment ob = a" "bo_starting_coor ob = unused st"
    "arrays st0 = (arrays st)(unused st := arrays st a)"
    "ndofs (bo_rotator ob) = 2 * n"
    "BackboneRotator_init \<lparr>seg_coor = arrays st a, seg_residues = n, seg_psi_phi_angles = angles\<rparr>
       = Inr (bo_rotator ob)"
  using new
  by (auto simp add: BackboneRotator_new_def read_coor_def BackboneRotator_init_def
      split: sum.splits prod.splits)

lemma invoke_from_start:
  assumes d: "bo_starting_coor ob \<noteq> bo_segment ob"
    and i: "BackboneRotator_invoke ob ts st1 = Inr st2"
  shows "arrays st2 (bo_starting_coor ob) = arrays st1 (bo_starting_coor ob)"
    and "rotate_all (zip (map deg2rad (rev ts))
                      (zip (origins (bo_rotator ob))
                         (zip (aligners (bo_rotator ob)) (atoms_to_rotate (bo_rotator ob)))))
                    (arrays st1 (bo_starting_coor ob)) = Inr (arrays st2 (bo_segment ob))"
    and "length ts = ndofs (bo_rotator ob)"
  using d i
  by (auto simp add: BackboneRotator_invoke_def write_coor_def Let_def split: sum.splits if_splits)

lemma invoke_outcome:
  "map_sum id (\<lambda>s. arrays s (bo_segment ob)) (BackboneRotator_invoke ob ts st1) =
     (if length ts \<noteq> ndofs (bo_rotator ob) then Inl AssertionError
      else rotate_all (zip (map deg2rad (rev ts))
                      (zip (origins (bo_rotator ob))
                         (zip (aligners (bo_rotator ob)) (atoms_to_rotate (bo_rotator ob)))))
                    (arrays st1 (bo_starting_coor ob)))"
  by (auto simp add: BackboneRotator_invoke_def write_coor_def Let_def split: sum.splits)

text \<open>
  Claim C3. For a rotator constructed on a segment whose array is allocated, the array
  held by \<open>_starting_coor\<close> is not the array of the segment and holds the coordinates that
  the segment had at construction. A call that returns leaves that array as it is, takes a
  torsion vector of two entries per residue, and leaves in the array of the segment the
  result of the rotation loop run from the coordinates captured at construction, over the
  torsions reversed and converted from degrees to radians. So the outcome of a call after
  any earlier call is the outcome of the same call made first, and the all-zero torsion
  vector puts the segment back at the coordinates it had at construction. The loop skips a
  step whose torsion is zero degrees; a step with a nonzero torsion turns the atoms of its
  set, each about the axis through the origin by \<open>forward @ Rz(torsion) @ backward\<close>, and
  leaves every other atom where it is.
\<close>

theorem BackboneRotator_call_absolute:
  assumes new: "BackboneRotator_new st a n angles = Inr (ob, st0)"
    and alloc: "a < unused st"
  shows
   "bo_segment ob = a \<and> bo_starting_coor ob \<noteq> a \<and>
    arrays st0 a = arrays st a \<and> arrays st0 (bo_starting_coor ob) = arrays st a \<and>
    (\<forall>st1 ts st2.
       arrays st1 (bo_starting_coor ob) = arrays st a \<and> BackboneRotator_invoke ob ts st1 = Inr st2 \<longrightarrow>
         arrays st2 (bo_starting_coor ob) = arrays st a \<and>
         length ts = 2 * n \<and>
         rotate_all (zip (map deg2rad (rev ts))
                      (zip (origins (bo_rotator ob))
                         (zip (aligners (bo_rotator ob)) (atoms_to_rotate (bo_rotator ob)))))
                    (arrays st a) = Inr (arrays st2 a)) \<and>
    (\<forall>ts1 ts2 st1.
       BackboneRotator_invoke ob ts1 st0 = Inr st1 \<longrightarrow>
         map_sum id (\<lambda>s. arrays s a) (BackboneRotator_invoke ob ts2 st1) =
         map_sum id (\<lambda>s. arrays s a) (BackboneRotator_invoke ob ts2 st0)) \<and>
    (\<forall>st1. arrays st1 (bo_starting_coor ob) = arrays st a \<longrightarrow>
       (\<exists>st2. BackboneRotator_invoke ob (replicate (2 * n) (Fin 0)) st1 = Inr st2 \<and>
              arrays st2 a = arrays st a)) \<and>
    (\<forall>x steps c. rotate_all ((deg2rad (Fin 0), x) # steps) c = rotate_all steps c) \<and>
    (\<forall>t origin al atoms steps c.
       t \<noteq> Fin 0 \<and> list_all (\<lambda>i. i < length c) atoms \<longrightarrow>
         rotate_all ((t, origin, al, atoms) # steps) c =
           rotate_all steps
             (map (\<lambda>i. if i \<in> set atoms then turn al t origin (c ! i) else c ! i) [0..<length c]))"
proof -
  note r = BackboneRotator_new_result[OF new]
  have sg: "bo_segment ob = a" by (rule r(1))
  have d: "bo_starting_coor ob \<noteq> a" using r(2) alloc by simp
  have d': "bo_starting_coor ob \<noteq> bo_segment ob" using d sg by simp
  have a0: "arrays st0 a = arrays st a" using r(2,3) d by simp
  have s0: "arrays st0 (bo_starting_coor ob) = arrays st a" using r(2,3) by simp
  have inv: "arrays st2 (bo_starting_coor ob) = arrays st a \<and>
         length ts = 2 * n \<and>
         rotate_all (zip (map deg2rad (rev ts))
                      (zip (origins (bo_rotator ob))
                         (zip (aligners (bo_rotator ob)) (atoms_to_rotate (bo_rotator ob)))))
                    (arrays st a) = Inr (arrays st2 a)"
    if "arrays st1 (bo_starting_coor ob) = arrays st a \<and> BackboneRotator_invoke ob ts st1 = Inr st2"
    for st1 ts st2
    using invoke_from_start[OF d', of ts st1 st2] that r(4) sg by simp
  have two: "map_sum id (\<lambda>s. arrays s a) (BackboneRotator_invoke ob ts2 st1) =
         map_sum id (\<lambda>s. arrays s a) (BackboneRotator_invoke ob ts2 st0)"
    if "BackboneRotator_invoke ob ts1 st0 = Inr st1" for ts1 ts2 st1
  proof -
    have "arrays st1 (bo_starting_coor ob) = arrays st0 (bo_starting_coor ob)"
      using invoke_from_start(1)[OF d' that] .
    then show ?thesis
      using invoke_outcome[of ob ts2 st1] invoke_outcome[of ob ts2 st0] sg by simp
  qed
  have zero: "\<exists>st2. BackboneRotator_invoke ob (replicate (2 * n) (Fin 0)) st1 = Inr st2 \<and>
              arrays st2 a = arrays st a"
    if c: "arrays st1 (bo_starting_coor ob) = arrays st a" for st1
  proof -
    have dz: "deg2rad (Fin 0) = Fin 0" by (simp add: deg2rad_def)
    have z: "rotate_all (zip (map deg2rad (rev (replicate (2 * n) (Fin 0))))
                      (zip (origins (bo_rotator ob))
                         (zip (aligners (bo_rotator ob)) (atoms_to_rotate (bo_rotator ob)))))
                    (arrays st1 (bo_starting_coor ob)) = Inr (arrays st1 (bo_starting_coor ob))"
      by (simp only: rev_replicate map_replicate dz rotate_all_zero[OF zip_replicate_fst])
    have "map_sum id (\<lambda>s. arrays s (bo_segment ob))
            (BackboneRotator_invoke ob (replicate (2 * n) (Fin 0)) st1) = Inr (arrays st a)"
      unfolding invoke_outcome z using r(4) c by simp
    then show ?thesis
      unfolding sg by (cases "BackboneRotator_invoke ob (replicate (2 * n) (Fin 0)) st1") auto
  qed
  have skip: "rotate_all ((deg2rad (Fin 0), x) # steps) c = rotate_all steps c" for x steps c
    by (cases x) (auto simp add: deg2rad_def split: prod.splits)
  have step: "rotate_all ((t, origin, al, atoms) # steps) c =
           rotate_all steps
             (map (\<lambda>i. if i \<in> set atoms then turn al t origin (c ! i) else c ! i) [0..<length c])"
    if "t \<noteq> Fin 0 \<and> list_all (\<lambda>i. i < length c) atoms" for t origin al atoms steps c
    using rotate_all_step[of t c atoms origin al steps] that by blast
  show ?thesis
    using sg d a0 s0 inv two zero skip step by blast
qed

text \<open>
  The rotator on the two-atom segment: the torsions (0, 90) turn the first atom by a
  quarter turn about the X axis (the last torsion goes with the first axis, psi, whose set
  is the first atom only) and leave the second; the torsions (0, 0) afterwards put the
  segment back at its starting coordinates.
\<close>

lemma turn_quarter:
  "turn x_aligner (Fin (pi / 2)) (Fin 0, Fin 0, Fin 0) (Fin x, Fin y, Fin z) = (Fin x, Fin (- z), Fin y)"
  by (simp add: turn_def x_aligner_def mat_mul_def Rz_def row_times_def fsub_def)

lemma new_two_atoms:
  "BackboneRotator_new two_atoms 0 1 two_angles =
     Inr (\<lparr>bo_segment = 0, bo_starting_coor = 1,
           bo_rotator = \<lparr>ndofs = 2, starting_coor = [(Fin 0, Fin 1, Fin 0), (Fin 0, Fin 2, Fin 0)],
                          aligners = [x_aligner, x_aligner],
                          origins = [(Fin 0, Fin 0, Fin 0), (Fin 0, Fin 0, Fin 0)],
                          atoms_to_rotate = [[0], [0, 1]]\<rparr>\<rparr>,
          \<lparr>arrays = (\<lambda>_. [])(0 := [(Fin 0, Fin 1, Fin 0), (Fin 0, Fin 2, Fin 0)],
                               1 := [(Fin 0, Fin 1, Fin 0), (Fin 0, Fin 2, Fin 0)]),
           unused = 2\<rparr>)"
  by (simp add: BackboneRotator_new_def read_coor_def two_atoms_def two_angles_def
      BackboneRotator_init_def aligner_x forward_x backward_x x_aligner_def)

lemma quarter: "deg2rad (Fin 90) = Fin (pi / 2)" "deg2rad (Fin 0) = Fin 0"
  by (simp_all add: deg2rad_def)

lemma pi_half_nonzero: "Fin (pi / 2) \<noteq> Fin 0"
  using pi_gt_zero by simp

theorem BackboneRotator_call_absolute_witness:
  "\<exists>ob st0 st1 st2.
      BackboneRotator_new two_atoms 0 1 two_angles = Inr (ob, st0) \<and>
      BackboneRotator_invoke ob [Fin 0, Fin 90] st0 = Inr st1 \<and>
      vec_within (1 / 10 ^ 6) (arrays st1 0 ! 0) (Fin 0, Fin 0, Fin 1) \<and>
      arrays st1 0 ! 1 = (Fin 0, Fin 2, Fin 0) \<and>
      BackboneRotator_invoke ob [Fin 0, Fin 0] st1 = Inr st2 \<and>
      arrays st2 0 = [(Fin 0, Fin 1, Fin 0), (Fin 0, Fin 2, Fin 0)]"
proof -
  define st0 where "st0 = \<lparr>arrays = (\<lambda>_. [])(0 := [(Fin 0, Fin 1, Fin 0), (Fin 0, Fin 2, Fin 0)],
                               1 := [(Fin 0, Fin 1, Fin 0), (Fin 0, Fin 2, Fin 0)]),
           unused = 2\<rparr>"
  have new: "BackboneRotator_new two_atoms 0 1 two_angles = Inr (two_atoms_rotator, st0)"
    unfolding two_atoms_rotator_def st0_def by (rule new_two_atoms)
  have alloc: "0 < unused two_atoms" by (simp add: two_atoms_def)
  note t = BackboneRotator_call_absolute[OF new alloc]
  from t have t_start: "arrays st0 (bo_starting_coor two_atoms_rotator) = arrays two_atoms 0"
    by (elim conjE)
  from t have t_inv: "\<forall>st1 ts st2.
       arrays st1 (bo_starting_coor two_atoms_rotator) = arrays two_atoms 0 \<and>
       BackboneRotator_invoke two_atoms_rotator ts st1 = Inr st2 \<longrightarrow>
         arrays st2 (bo_starting_coor two_atoms_rotator) = arrays two_atoms 0 \<and>
         length ts = 2 * 1 \<and>
         rotate_all (zip (map deg2rad (rev ts))
                      (zip (origins (bo_rotator two_atoms_rotator))
                         (zip (aligners (bo_rotator two_atoms_rotator))
                              (atoms_to_rotate (bo_rotator two_atoms_rotator)))))
                    (arrays two_atoms 0) = Inr (arrays st2 0)"
    by (elim conjE)
  from t have t_zero: "\<forall>st1. arrays st1 (bo_starting_coor two_atoms_rotator) = arrays two_atoms 0 \<longrightarrow>
       (\<exists>st2. BackboneRotator_invoke two_atoms_rotator (replicate (2 * 1) (Fin 0)) st1 = Inr st2 \<and>
              arrays st2 0 = arrays two_atoms 0)"
    by (elim conjE)
  from t have t_step: "\<forall>t origin al atoms steps c.
       t \<noteq> Fin 0 \<and> list_all (\<lambda>i. i < length c) atoms \<longrightarrow>
         rotate_all ((t, origin, al, atoms) # steps) c =
           rotate_all steps
             (map (\<lambda>i. if i \<in> set atoms then turn al t origin (c ! i) else c ! i) [0..<length c])"
    by (elim conjE)
  have start: "arrays two_atoms 0 = [(Fin 0, Fin 1, Fin 0), (Fin 0, Fin 2, Fin 0)]"
    by (simp add: two_atoms_def)
  note s0 = t_start
  have len: "length [Fin 0, Fin 90 :: npfloat] = ndofs (bo_rotator two_atoms_rotator)"
    by (simp add: two_atoms_rotator_def)
  have step: "rotate_all ((Fin (pi / 2), (Fin 0, Fin 0, Fin 0), x_aligner, [0]) # steps)
                 [(Fin 0, Fin 1, Fin 0), (Fin 0, Fin 2, Fin 0)]
              = rotate_all steps [(Fin 0, Fin 0, Fin 1), (Fin 0, Fin 2, Fin 0)]" for steps
  proof -
    have "Fin (pi / 2) \<noteq> Fin 0 \<and>
            list_all (\<lambda>i. i < length [(Fin 0, Fin 1, Fin 0), (Fin 0, Fin 2, Fin 0)]) [0]"
      using pi_half_nonzero by simp
    with t_step have "rotate_all ((Fin (pi / 2), (Fin 0, Fin 0, Fin 0), x_aligner, [0]) # steps)
                 [(Fin 0, Fin 1, Fin 0), (Fin 0, Fin 2, Fin 0)]
              = rotate_all steps
                  (map (\<lambda>i. if i \<in> set [0]
                             then turn x_aligner (Fin (pi / 2)) (Fin 0, Fin 0, Fin 0)
                                    ([(Fin 0, Fin 1, Fin 0), (Fin 0, Fin 2, Fin 0)] ! i)
                             else [(Fin 0, Fin 1, Fin 0), (Fin 0, Fin 2, Fin 0)] ! i)
                       [0..<length [(Fin 0, Fin 1, Fin 0), (Fin 0, Fin 2, Fin 0)]])"
      by blast
    then show ?thesis by (simp add: upt_conv_Cons turn_quarter)
  qed
  have both: "rotate_all [(Fin (pi / 2), (Fin 0, Fin 0, Fin 0), x_aligner, [0]),
                           (Fin 0, (Fin 0, Fin 0, Fin 0), x_aligner, [0, 1])]
                 [(Fin 0, Fin 1, Fin 0), (Fin 0, Fin 2, Fin 0)]
              = Inr [(Fin 0, Fin 0, Fin 1), (Fin 0, Fin 2, Fin 0)]"
    unfolding step by simp
  have out: "map_sum id (\<lambda>s. arrays s 0) (BackboneRotator_invoke two_atoms_rotator [Fin 0, Fin 90] st0)
               = Inr [(Fin 0, Fin 0, Fin 1), (Fin 0, Fin 2, Fin 0)]"
    using invoke_outcome[of two_atoms_rotator "[Fin 0, Fin 90]" st0] s0 start both
    by (simp add: two_atoms_rotator_def quarter del: rotate_all.simps)
  then obtain st1 where
    c1: "BackboneRotator_invoke two_atoms_rotator [Fin 0, Fin 90] st0 = Inr st1"
    and a1: "arrays st1 0 = [(Fin 0, Fin 0, Fin 1), (Fin 0, Fin 2, Fin 0)]"
    by (cases "BackboneRotator_invoke two_atoms_rotator [Fin 0, Fin 90] st0") auto
  from t_inv s0 c1 have k1: "arrays st1 (bo_starting_coor two_atoms_rotator) = arrays two_atoms 0"
    by blast
  with t_zero obtain st2 where
    c2: "BackboneRotator_invoke two_atoms_rotator (replicate (2 * 1) (Fin 0)) st1 = Inr st2"
    and a2: "arrays st2 0 = arrays two_atoms 0"
    by blast
  have "replicate (2 * 1) (Fin 0 :: npfloat) = [Fin 0, Fin 0]" by (simp add: numeral_2_eq_2)
  with c2 have c2': "BackboneRotator_invoke two_atoms_rotator [Fin 0, Fin 0] st1 = Inr st2" by simp
  show ?thesis
    using new c1 a1 c2' a2 start by (intro exI[of _ two_atoms_rotator] exI[of _ st0] exI[of _ st1] exI[of _ st2]) simp
qed

text \<open>
  The copy matters: were \<open>_starting_coor\<close> the array of the segment itself, the calls would
  accumulate, and the torsions (0, 0) after (0, 90) would leave the first atom turned.
\<close>

lemma shared_array_accumulates:
  "\<exists>st1 st2.
      BackboneRotator_invoke (two_atoms_rotator\<lparr>bo_starting_coor := 0\<rparr>) [Fin 0, Fin 90] two_atoms = Inr st1 \<and>
      BackboneRotator_invoke (two_atoms_rotator\<lparr>bo_starting_coor := 0\<rparr>) [Fin 0, Fin 0] st1 = Inr st2 \<and>
      vec_within (1 / 10 ^ 6) (arrays st2 0 ! 0) (Fin 0, Fin 0, Fin 1)"
proof -
  define ob where "ob = two_atoms_rotator\<lparr>bo_starting_coor := 0\<rparr>"
  have step: "rotate_all ((Fin (pi / 2), (Fin 0, Fin 0, Fin 0), x_aligner, [0]) # steps)
                 [(Fin 0, Fin 1, Fin 0), (Fin 0, Fin 2, Fin 0)]
              = rotate_all steps [(Fin 0, Fin 0, Fin 1), (Fin 0, Fin 2, Fin 0)]" for steps
    using rotate_all_step[of "Fin (pi / 2)" "[(Fin 0, Fin 1, Fin 0), (Fin 0, Fin 2, Fin 0)]" "[0]"
        "(Fin 0, Fin 0, Fin 0)" x_aligner steps] pi_half_nonzero
    by (simp add: upt_conv_Cons turn_quarter)
  have both: "rotate_all [(Fin (pi / 2), (Fin 0, Fin 0, Fin 0), x_aligner, [0]),
                           (Fin 0, (Fin 0, Fin 0, Fin 0), x_aligner, [0, 1])]
                 [(Fin 0, Fin 1, Fin 0), (Fin 0, Fin 2, Fin 0)]
              = Inr [(Fin 0, Fin 0, Fin 1), (Fin 0, Fin 2, Fin 0)]"
    unfolding step by simp
  have "map_sum id (\<lambda>s. arrays s (bo_segment ob)) (BackboneRotator_invoke ob [Fin 0, Fin 90] two_atoms)
          = Inr [(Fin 0, Fin 0, Fin 1), (Fin 0, Fin 2, Fin 0)]"
    unfolding invoke_outcome using both
    by (simp add: ob_def two_atoms_rotator_def two_atoms_def quarter del: rotate_all.simps)
  then obtain st1 where
    c1: "BackboneRotator_invoke ob [Fin 0, Fin 90] two_atoms = Inr st1"
    and a1: "arrays st1 0 = [(Fin 0, Fin 0, Fin 1), (Fin 0, Fin 2, Fin 0)]"
    by (cases "BackboneRotator_invoke ob [Fin 0, Fin 90] two_atoms")
       (auto simp add: ob_def two_atoms_rotator_def)
  have "map_sum id (\<lambda>s. arrays s (bo_segment ob)) (BackboneRotator_invoke ob [Fin 0, Fin 0] st1)
          = Inr [(Fin 0, Fin 0, Fin 1), (Fin 0, Fin 2, Fin 0)]"
    unfolding invoke_outcome
    by (simp add: ob_def two_atoms_rotator_def a1 quarter)
  then obtain st2 where
    c2: "BackboneRotator_invoke ob [Fin 0, Fin 0] st1 = Inr st2"
    and a2: "arrays st2 0 = [(Fin 0, Fin 0, Fin 1), (Fin 0, Fin 2, Fin 0)]"
    by (cases "BackboneRotator_invoke ob [Fin 0, Fin 0] st1")
       (auto simp add: ob_def two_atoms_rotator_def)
  have "vec_within (1 / 10 ^ 6) (arrays st2 0 ! 0) (Fin 0, Fin 0, Fin 1)"
    by (simp add: a2)
  then show ?thesis using c1 c2 unfolding ob_def by blast
qed

text \<open>
  Claim C8, as amended. The call of the backbone rotator fails (an assertion error) when
  the length of the torsion vector differs from its declared number of degrees of
  freedom. The ligand translator declares no such number and makes no check of its own:
  a vector of a length other than 1 and 3 fails in the addition (a broadcast error), a
  vector of length 3 translates, and a vector of length 1 is broadcast and applied
  silently as the same shift along every axis.
\<close>

theorem wrong_length_errors:
  "(length torsions \<noteq> ndofs r \<longrightarrow> BackboneRotator_call r torsions seg = Inl AssertionError) \<and>
   (length tv \<noteq> 1 \<and> length tv \<noteq> 3 \<longrightarrow> Translator_call t tv = Inl ValueError_broadcast) \<and>
   Translator_call t [dx, dy, dz] = Inr (map (\<lambda>v. vadd v (dx, dy, dz)) (coor_to_translate t)) \<and>
   Translator_call t [d] = Inr (map (\<lambda>v. vadd v (d, d, d)) (coor_to_translate t))"
proof -
  have "length tv \<noteq> 1 \<and> length tv \<noteq> 3 \<longrightarrow> Translator_call t tv = Inl ValueError_broadcast"
    by (auto simp add: Translator_call_def split: list.splits)
  then show ?thesis
    by (simp add: BackboneRotator_call_def Translator_call_def)
qed

theorem wrong_length_errors_witness:
  "BackboneRotator_call
     \<lparr>ndofs = 2, starting_coor = [], aligners = [], origins = [], atoms_to_rotate = []\<rparr>
     [Fin 30] [] = Inl AssertionError \<and>
   Translator_call (Translator_init [(Fin 0, Fin 0, Fin 0)]) [Fin 1, Fin 2] = Inl ValueError_broadcast"
  using wrong_length_errors[where torsions = "[Fin 30]"
      and r = "\<lparr>ndofs = 2, starting_coor = [], aligners = [], origins = [], atoms_to_rotate = []\<rparr>"
      and seg = "[]" and tv = "[Fin 1, Fin 2]" and t = "Translator_init [(Fin 0, Fin 0, Fin 0)]"]
  by simp

text \<open>
  A translator given a vector of length 1 instead of 3 raises nothing: it shifts the atom
  by that number along every axis.
\<close>

theorem translator_length_one_counterexample:
  "Translator_call (Translator_init [(Fin 0, Fin 0, Fin 0)]) [Fin 1] = Inr [(Fin 1, Fin 1, Fin 1)]"
  by (simp add: Translator_call_def Translator_init_def)


section \<open>Properties of the angle rotator\<close>

lemma select_name_nth:
  "map (\<lambda>i. names ! i) (select_name names values) = filter (\<lambda>n. n \<in> set values) names"
proof -
  have "filter (\<lambda>n. n \<in> set values) names
          = filter (\<lambda>n. n \<in> set values) (map (\<lambda>i. names ! i) [0..<length names])"
    by (simp add: map_nth)
  also have "\<dots> = map (\<lambda>i. names ! i) (select_name names values)"
    by (simp add: filter_map select_name_def comp_def)
  finally show ?thesis by simp
qed

lemma length_select_name:
  "length (select_name names values) = length (filter (\<lambda>n. n \<in> set values) names)"
  using arg_cong[OF select_name_nth[of names "values"], of length] by simp

lemma select_name_in_range:
  "list_all (\<lambda>i. i < length names) (select_name names values)"
  by (simp add: select_name_def list_all_iff)

lemma select_name_ne_in_range:
  "list_all (\<lambda>i. i < length names) (select_name_ne names values)"
  by (simp add: select_name_ne_def list_all_iff)

lemma count3:
  assumes "a \<noteq> b" "a \<noteq> c" "b \<noteq> c"
  shows "length (filter (\<lambda>n. n \<in> set [a, b, c]) xs)
           = count_list xs a + count_list xs b + count_list xs c"
  using assms by (induction xs) auto

lemma count2:
  assumes "a \<noteq> b"
  shows "length (filter (\<lambda>n. n \<in> set [a, b]) xs) = count_list xs a + count_list xs b"
  using assms by (induction xs) auto

lemma count1:
  "length (filter (\<lambda>n. n \<in> set [a]) xs) = count_list xs a"
  by (induction xs) auto

lemma get_xyz_select:
  assumes "length names = length coor"
  shows "get_xyz coor (select_name names values) = Inr (map (\<lambda>i. coor ! i) (select_name names values))"
    and "get_xyz coor (select_name_ne names values) = Inr (map (\<lambda>i. coor ! i) (select_name_ne names values))"
  using select_name_in_range[of names "values"] select_name_ne_in_range[of names "values"] assms
  by (simp_all add: get_xyz_def)

lemma row0_ok: "xs \<noteq> [] \<Longrightarrow> \<exists>v. row0 xs = Inr v"
  by (cases xs) auto

lemma row1_ok: "2 \<le> length xs \<Longrightarrow> \<exists>v. row1 xs = Inr v"
  by (cases xs rule: row1.cases) auto

lemma distinct_count_list: "distinct xs \<Longrightarrow> count_list xs a = (if a \<in> set xs then 1 else 0)"
  by (induction xs) auto

lemma CBAngleRotator_axis_ok:
  assumes ca: "count_list (res_name res) ''CA'' = 1"
    and cb: "count_list (res_name res) ''CB'' = 1"
    and cg: "count_list (res_name res) ''CG'' = 1"
    and len: "length (res_name res) = length (res_coor res)"
  shows "\<exists>atoms origin coor axis. CBAngleRotator_axis res = Inr (atoms, origin, coor, axis)"
proof -
  let ?n = "res_name res" and ?c = "res_coor res"
  have l3: "length (select_name ?n [''CA'', ''CB'', ''CG'']) = 3"
    unfolding length_select_name by (subst count3) (simp_all add: ca cb cg)
  have l1: "length (select_name ?n [''CB'']) = 1"
    unfolding length_select_name count1 by (rule cb)
  have l2: "length (select_name ?n [''CA'', ''CG'']) = 2"
    unfolding length_select_name by (subst count2) (simp_all add: ca cg)
  note g = get_xyz_select[OF len]
  obtain origin where o: "row0 (map (\<lambda>i. ?c ! i) (select_name ?n [''CB''])) = Inr origin"
    using row0_ok[of "map (\<lambda>i. ?c ! i) (select_name ?n [''CB''])"] l1
    by (metis length_0_conv length_map zero_neq_one)
  let ?ax = "map (\<lambda>v. vsub v origin) (map (\<lambda>i. ?c ! i) (select_name ?n [''CA'', ''CG'']))"
  have "2 \<le> length ?ax" using l2 by simp
  then obtain v1 where v1: "row1 ?ax = Inr v1" using row1_ok by blast
  have "?ax \<noteq> []" using l2 by auto
  then obtain v0 where v0: "row0 ?ax = Inr v0" using row0_ok by blast
  show ?thesis
    unfolding CBAngleRotator_axis_def Let_def
    by (simp only: l3 g o v0 v1 sum.case simp_thms if_False) blast
qed

lemma CBAngleRotator_wrong_count:
  assumes "length (select_name (res_name res) [''CA'', ''CB'', ''CG'']) \<noteq> 3"
  shows "CBAngleRotator_init res = Inl RuntimeError"
  using assms by (simp add: CBAngleRotator_init_def CBAngleRotator_axis_def Let_def)

lemma CBAngleRotator_runtime_error_iff:
  "CBAngleRotator_axis res = Inl RuntimeError \<longleftrightarrow>
     length (select_name (res_name res) [''CA'', ''CB'', ''CG'']) \<noteq> 3"
  by (auto simp add: CBAngleRotator_axis_def Let_def get_xyz_def
      split: sum.splits if_splits elim: row0.elims row1.elims)

lemma missing_atom_count:
  assumes d: "distinct names" and m: "\<not> {''CA'', ''CB'', ''CG''} \<subseteq> set names"
  shows "length (select_name names [''CA'', ''CB'', ''CG'']) \<noteq> 3"
proof -
  have "length (select_name names [''CA'', ''CB'', ''CG''])
          = count_list names ''CA'' + count_list names ''CB'' + count_list names ''CG''"
    unfolding length_select_name by (subst count3) simp_all
  also have "\<dots> < 3"
    using m by (auto simp add: distinct_count_list[OF d])
  finally show ?thesis by simp
qed

lemma ZAxisAligner_error:
  "ZAxisAligner a = Inl e \<Longrightarrow> e = ValueError_axis (aligned_axis a)"
  by (auto simp add: ZAxisAligner_def aligned_axis_def split: prod.splits if_splits)

lemma CBAngleRotator_config_error_iff:
  "CBAngleRotator_init res = Inl RuntimeError \<longleftrightarrow>
     length (select_name (res_name res) [''CA'', ''CB'', ''CG'']) \<noteq> 3"
proof
  assume r: "CBAngleRotator_init res = Inl RuntimeError"
  show "length (select_name (res_name res) [''CA'', ''CB'', ''CG'']) \<noteq> 3"
  proof (cases "CBAngleRotator_axis res")
    case (Inl e)
    with r have "CBAngleRotator_axis res = Inl RuntimeError"
      by (simp add: CBAngleRotator_init_def)
    then show ?thesis using CBAngleRotator_runtime_error_iff[of res] by blast
  next
    case (Inr t)
    obtain atoms origin coor axis where t: "t = (atoms, origin, coor, axis)"
      by (cases t) auto
    show ?thesis
    proof (cases "ZAxisAligner axis")
      case (Inl e)
      then have "e = ValueError_axis (aligned_axis axis)" by (rule ZAxisAligner_error)
      with r Inl Inr t show ?thesis by (simp add: CBAngleRotator_init_def)
    next
      case (Inr al)
      with r \<open>CBAngleRotator_axis res = Inr t\<close> t show ?thesis
        by (simp add: CBAngleRotator_init_def)
    qed
  qed
next
  assume "length (select_name (res_name res) [''CA'', ''CB'', ''CG'']) \<noteq> 3"
  then show "CBAngleRotator_init res = Inl RuntimeError" by (rule CBAngleRotator_wrong_count)
qed

text \<open>
  Claim C7, as amended. The construction of the CB angle rotator fails with the
  configuration error (a \<open>RuntimeError\<close>) exactly when the number of atoms named CA, CB or CG
  differs from 3, in particular for every residue without repeated atom names that lacks
  one of the three. When the residue has exactly one atom of each name, the check passes
  and the set-up reaches the rotation axis; the construction then ends as the axis aligner
  ends on that axis: with the aligner's geometry error, which names the axis that the
  aligner computed, or with the rotator built from the aligner's two rotations.
\<close>

theorem CBAngleRotator_init_errors:
  "(CBAngleRotator_init res = Inl RuntimeError \<longleftrightarrow>
      length (select_name (res_name res) [''CA'', ''CB'', ''CG'']) \<noteq> 3) \<and>
   (distinct (res_name res) \<and> \<not> {''CA'', ''CB'', ''CG''} \<subseteq> set (res_name res) \<longrightarrow>
      CBAngleRotator_init res = Inl RuntimeError) \<and>
   (count_list (res_name res) ''CA'' = 1 \<and> count_list (res_name res) ''CB'' = 1 \<and>
    count_list (res_name res) ''CG'' = 1 \<and> length (res_name res) = length (res_coor res) \<longrightarrow>
      (\<exists>atoms origin coor axis.
         CBAngleRotator_axis res = Inr (atoms, origin, coor, axis) \<and>
         (case ZAxisAligner axis of
            Inl e \<Rightarrow> CBAngleRotator_init res = Inl e \<and> e = ValueError_axis (aligned_axis axis)
          | Inr al \<Rightarrow>
              CBAngleRotator_init res =
                Inr \<lparr>ar_atoms_to_rotate = atoms, ar_origin = origin,
                     ar_coor_to_rotate = map (mat_vec (backward_rotation al)) coor,
                     ar_forward = forward_rotation al\<rparr>)))"
proof (intro conjI impI)
  show "CBAngleRotator_init res = Inl RuntimeError \<longleftrightarrow>
      length (select_name (res_name res) [''CA'', ''CB'', ''CG'']) \<noteq> 3"
    by (rule CBAngleRotator_config_error_iff)
next
  assume "distinct (res_name res) \<and> \<not> {''CA'', ''CB'', ''CG''} \<subseteq> set (res_name res)"
  then have "length (select_name (res_name res) [''CA'', ''CB'', ''CG'']) \<noteq> 3"
    using missing_atom_count by blast
  then show "CBAngleRotator_init res = Inl RuntimeError" by (rule CBAngleRotator_wrong_count)
next
  assume a: "count_list (res_name res) ''CA'' = 1 \<and> count_list (res_name res) ''CB'' = 1 \<and>
    count_list (res_name res) ''CG'' = 1 \<and> length (res_name res) = length (res_coor res)"
  then obtain atoms origin coor axis where
    ax: "CBAngleRotator_axis res = Inr (atoms, origin, coor, axis)"
    using CBAngleRotator_axis_ok[of res] by blast
  have c: "(case ZAxisAligner axis of
            Inl e \<Rightarrow> CBAngleRotator_init res = Inl e \<and> e = ValueError_axis (aligned_axis axis)
          | Inr al \<Rightarrow>
              CBAngleRotator_init res =
                Inr \<lparr>ar_atoms_to_rotate = atoms, ar_origin = origin,
                     ar_coor_to_rotate = map (mat_vec (backward_rotation al)) coor,
                     ar_forward = forward_rotation al\<rparr>)"
  proof (cases "ZAxisAligner axis")
    case (Inl e)
    then have "e = ValueError_axis (aligned_axis axis)" by (rule ZAxisAligner_error)
    with Inl show ?thesis by (simp add: CBAngleRotator_init_def ax)
  next
    case (Inr al)
    then show ?thesis by (simp add: CBAngleRotator_init_def ax)
  qed
  show "\<exists>atoms origin coor axis.
         CBAngleRotator_axis res = Inr (atoms, origin, coor, axis) \<and>
         (case ZAxisAligner axis of
            Inl e \<Rightarrow> CBAngleRotator_init res = Inl e \<and> e = ValueError_axis (aligned_axis axis)
          | Inr al \<Rightarrow>
              CBAngleRotator_init res =
                Inr \<lparr>ar_atoms_to_rotate = atoms, ar_origin = origin,
                     ar_coor_to_rotate = map (mat_vec (backward_rotation al)) coor,
                     ar_forward = forward_rotation al\<rparr>)"
    using ax c by blast
qed

lemma axis_bent:
  "CBAngleRotator_axis
     \<lparr>res_name = [''CA'', ''CB'', ''CG''],
      res_coor = [(Fin 1, Fin 0, Fin 0), (Fin 0, Fin 0, Fin 0), (Fin 0, Fin 0, Fin 1)]\<rparr>
   = Inr ([2], (Fin 0, Fin 0, Fin 0), [(Fin 0, Fin 0, Fin 1)], (Fin 0, Fin (- 1), Fin 0))"
  by (simp add: CBAngleRotator_axis_def select_name_def select_name_ne_def get_xyz_def
      upt_conv_Cons fsub_def Let_def)

lemma axis_collinear:
  "CBAngleRotator_axis
     \<lparr>res_name = [''CA'', ''CB'', ''CG''],
      res_coor = [(Fin 1, Fin 0, Fin 0), (Fin 0, Fin 0, Fin 0), (Fin (- 1), Fin 0, Fin 0)]\<rparr>
   = Inr ([2], (Fin 0, Fin 0, Fin 0), [(Fin (- 1), Fin 0, Fin 0)], (NaN, NaN, NaN))"
  by (simp add: CBAngleRotator_axis_def select_name_def select_name_ne_def get_xyz_def
      upt_conv_Cons fsub_def Let_def signed_inf_def)

theorem CBAngleRotator_init_errors_witness:
  "\<exists>r. CBAngleRotator_init
          \<lparr>res_name = [''CA'', ''CB'', ''CG''],
           res_coor = [(Fin 1, Fin 0, Fin 0), (Fin 0, Fin 0, Fin 0), (Fin 0, Fin 0, Fin 1)]\<rparr> = Inr r"
proof -
  define res where "res = \<lparr>res_name = [''CA'', ''CB'', ''CG''],
      res_coor = [(Fin 1, Fin 0, Fin 0), (Fin 0, Fin 0, Fin 0), (Fin 0, Fin 0, Fin 1)]\<rparr>"
  have h: "count_list (res_name res) ''CA'' = 1 \<and> count_list (res_name res) ''CB'' = 1 \<and>
    count_list (res_name res) ''CG'' = 1 \<and> length (res_name res) = length (res_coor res)"
    by (simp add: res_def)
  have ax: "CBAngleRotator_axis res
     = Inr ([2], (Fin 0, Fin 0, Fin 0), [(Fin 0, Fin 0, Fin 1)], (Fin 0, Fin (- 1), Fin 0))"
    unfolding res_def by (rule axis_bent)
  have nz: "(0::real) * 0 + (- 1) * (- 1) \<noteq> 0" by simp
  obtain al where al: "ZAxisAligner (Fin 0, Fin (- 1), Fin 0) = Inr al"
    using ZAxisAligner_succeeds[OF nz, of 0] by blast
  from CBAngleRotator_init_errors[of res] h ax al have "\<exists>r. CBAngleRotator_init res = Inr r"
    by simp
  then show ?thesis unfolding res_def .
qed

text \<open>
  A residue with exactly one CA, one CB and one CG on a straight line: the normal of the
  CA-CB-CG plane is the zero vector, and the construction fails with the geometry error.
\<close>

theorem CBAngleRotator_collinear_counterexample:
  "count_list [''CA'', ''CB'', ''CG''] ''CA'' = 1 \<and>
   count_list [''CA'', ''CB'', ''CG''] ''CB'' = 1 \<and>
   count_list [''CA'', ''CB'', ''CG''] ''CG'' = 1 \<and>
   CBAngleRotator_init
     \<lparr>res_name = [''CA'', ''CB'', ''CG''],
      res_coor = [(Fin 1, Fin 0, Fin 0), (Fin 0, Fin 0, Fin 0), (Fin (- 1), Fin 0, Fin 0)]\<rparr>
   = Inl (ValueError_axis (NaN, NaN, NaN))"
proof -
  have "ZAxisAligner (NaN, NaN, NaN) = Inl (ValueError_axis (NaN, NaN, NaN))"
    by (rule ZAxisAligner_fails) simp
  then show ?thesis
    by (simp add: CBAngleRotator_init_def axis_collinear)
qed

text \<open>
  The check counts atoms: a residue with two atoms named CA, one CB and no CG passes it,
  and the construction goes through with the second CA in the place of CG.
\<close>

lemma CBAngleRotator_duplicate_names_pass:
  "\<exists>r. CBAngleRotator_init
          \<lparr>res_name = [''CA'', ''CA'', ''CB''],
           res_coor = [(Fin 1, Fin 0, Fin 0), (Fin 0, Fin 0, Fin 1), (Fin 0, Fin 0, Fin 0)]\<rparr> = Inr r"
proof -
  have ax: "CBAngleRotator_axis
     \<lparr>res_name = [''CA'', ''CA'', ''CB''],
      res_coor = [(Fin 1, Fin 0, Fin 0), (Fin 0, Fin 0, Fin 1), (Fin 0, Fin 0, Fin 0)]\<rparr>
   = Inr ([], (Fin 0, Fin 0, Fin 0), [], (Fin 0, Fin (- 1), Fin 0))"
    by (simp add: CBAngleRotator_axis_def select_name_def select_name_ne_def get_xyz_def
      upt_conv_Cons fsub_def Let_def)
  have nz: "(0::real) * 0 + (- 1) * (- 1) \<noteq> 0" by simp
  obtain al where "ZAxisAligner (Fin 0, Fin (- 1), Fin 0) = Inr al"
    using ZAxisAligner_succeeds[OF nz, of 0] by blast
  then show ?thesis by (simp add: CBAngleRotator_init_def ax)
qed

section \<open>Properties of the bond rotator\<close>

lemma reached_trans:
  assumes "reached conn rt u v" and "reached conn rt s u"
  shows "reached conn rt s v"
  using assms by (induction rule: reached.induct) (auto intro: reached.step)

lemma flatnonzero_bonded:
  assumes "c < length conn" "b \<in> set (flatnonzero (conn ! c))"
  shows "bonded conn c b"
  using assms by (auto simp add: flatnonzero_def bonded_def)

lemma dfs_sound:
  "(rt \<in> set (fst st) \<longrightarrow>
      (\<forall>st'. find_neighbours_recursively d conn rt c st = Inr st' \<longrightarrow>
         set (fst st) \<subseteq> set (fst st') \<and>
         set (fst st') \<subseteq> set (fst st) \<union> {v. reached conn rt c v}))"
  "(\<forall>c. rt \<in> set (fst st2) \<and> (\<forall>b \<in> set bonds. bonded conn c b) \<longrightarrow>
      (\<forall>st'. visit_bonds d2 conn rt bonds st2 = Inr st' \<longrightarrow>
         set (fst st2) \<subseteq> set (fst st') \<and>
         set (fst st') \<subseteq> set (fst st2) \<union> {v. reached conn rt c v}))"
proof (induction d conn rt c st and d2 conn rt bonds st2
       rule: find_neighbours_recursively_visit_bonds.induct)
  case (1 conn rt c st)
  show ?case by simp
next
  case (2 depth conn rt c atoms foundroot)
  show ?case
  proof (intro impI allI)
    fix st'
    assume r: "rt \<in> set (fst (atoms, foundroot))"
      and f: "find_neighbours_recursively (Suc depth) conn rt c (atoms, foundroot) = Inr st'"
    from f have lt: "c < length conn" by (auto split: if_splits)
    with f have v: "visit_bonds depth conn rt (flatnonzero (conn ! c)) (atoms @ [c], foundroot) = Inr st'"
      by simp
    have b: "\<forall>b \<in> set (flatnonzero (conn ! c)). bonded conn c b"
      using flatnonzero_bonded[OF lt] by blast
    from 2 lt r b v have
      "set (fst (atoms @ [c], foundroot)) \<subseteq> set (fst st') \<and>
       set (fst st') \<subseteq> set (fst (atoms @ [c], foundroot)) \<union> {v. reached conn rt c v}"
      by (auto simp add: not_le)
    then show "set (fst (atoms, foundroot)) \<subseteq> set (fst st') \<and>
         set (fst st') \<subseteq> set (fst (atoms, foundroot)) \<union> {v. reached conn rt c v}"
      using reached.start[of conn rt c] by auto
  qed
next
  case (3 depth conn rt st)
  show ?case by simp
next
  case (4 depth conn rt b bonds atoms foundroot)
  show ?case
  proof (intro impI allI, elim conjE)
    fix c st'
    assume r: "rt \<in> set (fst (atoms, foundroot))"
      and bd: "\<forall>x \<in> set (b # bonds). bonded conn c x"
      and v: "visit_bonds depth conn rt (b # bonds) (atoms, foundroot) = Inr st'"
    define fr where "fr = (if b = rt then foundroot + 1 else foundroot)"
    show "set (fst (atoms, foundroot)) \<subseteq> set (fst st') \<and>
         set (fst st') \<subseteq> set (fst (atoms, foundroot)) \<union> {v. reached conn rt c v}"
    proof (cases "b \<in> set atoms")
      case True
      with v have "visit_bonds depth conn rt bonds (atoms, fr) = Inr st'"
        by (simp add: fr_def Let_def)
      moreover have "\<not> b \<notin> set atoms" using True by simp
      ultimately show ?thesis
        using 4(3)[OF fr_def] r bd by auto
    next
      case False
      with v obtain st1 where
        f1: "find_neighbours_recursively depth conn rt b (atoms, fr) = Inr st1"
        and v1: "visit_bonds depth conn rt bonds st1 = Inr st'"
        by (auto simp add: fr_def Let_def split: sum.splits)
      from False r have bne: "b \<noteq> rt" by auto
      from bd have cb: "bonded conn c b" by simp
      have rb: "reached conn rt c b"
        by (rule reached.step[OF reached.start cb bne])
      have i1: "set atoms \<subseteq> set (fst st1) \<and> set (fst st1) \<subseteq> set atoms \<union> {v. reached conn rt b v}"
        using 4(1)[OF fr_def False] r f1 by auto
      then have r1: "rt \<in> set (fst st1)" using r by auto
      have i2: "set (fst st1) \<subseteq> set (fst st') \<and> set (fst st') \<subseteq> set (fst st1) \<union> {v. reached conn rt c v}"
        using 4(2)[OF fr_def False f1] r1 bd v1 by auto
      have "{v. reached conn rt b v} \<subseteq> {v. reached conn rt c v}"
        using reached_trans[OF _ rb] by auto
      with i1 i2 show ?thesis by auto
    qed
  qed
qed

lemma assign_rows_length: "length (assign_rows coor sel new) = length coor"
  by (induction coor sel new rule: assign_rows.induct) auto

lemma assign_rows_frame:
  "i \<notin> set sel \<Longrightarrow> assign_rows coor sel new ! i = coor ! i"
  by (induction coor sel new rule: assign_rows.induct) auto

lemma set_xyz_frame:
  assumes "set_xyz coor new sel = Inr coor'"
  shows "length coor' = length coor \<and> (\<forall>i. i \<notin> set sel \<longrightarrow> coor' ! i = coor ! i)"
  using assms
  by (auto simp add: set_xyz_def assign_rows_length assign_rows_frame split: if_splits)

lemma get_xyz_length:
  assumes "get_xyz coor sel = Inr c"
  shows "length c = length sel \<and> list_all (\<lambda>i. i < length coor) sel"
  using assms by (auto simp add: get_xyz_def split: if_splits)

lemma BondRotator_init_moved:
  assumes "BondRotator_init depth lig a1 a2 = Inr r"
  shows "\<exists>rt second. index_of a1 (lig_name lig) = Inr rt \<and>
           index_of a2 (lig_name lig) = Inr second \<and>
           br_root r = rt \<and>
           set (br_atoms_to_rotate r) \<subseteq> moved_set (lig_connectivity lig) rt second \<and>
           list_all (\<lambda>i. i < length (lig_coor lig)) (br_atoms_to_rotate r) \<and>
           length (br_coor_to_rotate r) = length (br_atoms_to_rotate r)"
proof -
  from assms obtain rt second atoms foundroot coor where
    i1: "index_of a1 (lig_name lig) = Inr rt"
    and i2: "index_of a2 (lig_name lig) = Inr second"
    and f: "find_neighbours_recursively depth (lig_connectivity lig) rt second ([rt], 0)
              = Inr (atoms, foundroot)"
    and g: "get_xyz (lig_coor lig) atoms = Inr coor"
    and r1: "br_root r = rt" and r2: "br_atoms_to_rotate r = atoms"
    and r3: "length (br_coor_to_rotate r) = length coor"
    by (auto simp add: BondRotator_init_def Let_def split: sum.splits prod.splits)
  from dfs_sound(1)[of rt "([rt], 0)" depth "lig_connectivity lig" second] f
  have "set atoms \<subseteq> {rt} \<union> {v. reached (lig_connectivity lig) rt second v}"
    by auto
  then have m: "set atoms \<subseteq> moved_set (lig_connectivity lig) rt second"
    by (auto simp add: moved_set_def)
  show ?thesis
    using i1 i2 r1 r2 r3 m get_xyz_length[OF g] by auto
qed

text \<open>
  Claim C4. For a bond rotator constructed on a ligand, and for every angle, the call
  returns a new coordinate array of the full length of the ligand and leaves the ligand
  as it is; in the returned array every atom outside the moved set (the root atom, and
  the atoms reached from the second atom of the bond without passing through the root)
  has the coordinates that the ligand has at the time of the call.
\<close>

theorem BondRotator_call_frame:
  assumes init: "BondRotator_init depth lig a1 a2 = Inr r"
    and len: "length (lig_coor lig') = length (lig_coor lig)"
  shows "\<exists>rt second new.
           index_of a1 (lig_name lig) = Inr rt \<and>
           index_of a2 (lig_name lig) = Inr second \<and>
           BondRotator_call r angle lig' = (lig', Inr new) \<and>
           length new = length (lig_coor lig') \<and>
           (\<forall>i < length new. i \<notin> moved_set (lig_connectivity lig) rt second \<longrightarrow>
              new ! i = lig_coor lig' ! i)"
proof -
  from BondRotator_init_moved[OF init] obtain rt second where
    i1: "index_of a1 (lig_name lig) = Inr rt"
    and i2: "index_of a2 (lig_name lig) = Inr second"
    and m: "set (br_atoms_to_rotate r) \<subseteq> moved_set (lig_connectivity lig) rt second"
    and rg: "list_all (\<lambda>i. i < length (lig_coor lig)) (br_atoms_to_rotate r)"
    and l: "length (br_coor_to_rotate r) = length (br_atoms_to_rotate r)"
    by blast
  define rotated where "rotated = map (\<lambda>v. vadd (mat_vec (mat_mul (br_forward r) (Rz angle)) v) (br_t r))
      (br_coor_to_rotate r)"
  define new where "new = assign_rows (lig_coor lig') (br_atoms_to_rotate r) rotated"
  have s: "set_xyz (lig_coor lig') rotated (br_atoms_to_rotate r) = Inr new"
    using rg l len by (simp add: set_xyz_def rotated_def new_def)
  have c: "BondRotator_call r angle lig' = (lig', Inr new)"
    using s by (simp add: BondRotator_call_def bond_rotator_apply_def Let_def rotated_def)
  from set_xyz_frame[OF s] m have
    "length new = length (lig_coor lig') \<and>
     (\<forall>i < length new. i \<notin> moved_set (lig_connectivity lig) rt second \<longrightarrow>
              new ! i = lig_coor lig' ! i)"
    by auto
  with i1 i2 c show ?thesis by blast
qed

lemma dfs_chain:
  "find_neighbours_recursively 3 [[0, 1, 0, 0], [1, 0, 1, 0], [0, 1, 0, 1], [0, 0, 1, 0]] 1 2 ([1], 0)
     = Inr ([1, 2, 3], 1)"
  by code_simp

lemma idx_chain:
  "index_of ''A'' [''X'', ''A'', ''B'', ''C''] = Inr 1"
  "index_of ''B'' [''X'', ''A'', ''B'', ''C''] = Inr 2"
  by code_simp+

lemma chain_reached:
  assumes "reached [[0, 1, 0, 0], [1, 0, 1, 0], [0, 1, 0, 1], [0, 0, 1, 0]] 1 2 v"
  shows "v = 2 \<or> v = 3"
  using assms
proof (induction rule: reached.induct)
  case start
  show ?case by simp
next
  case (step u v)
  from step.hyps(2) step.IH have v4: "v < 4" by (auto simp add: bonded_def)
  have v1: "v \<noteq> 1" using step.hyps(3) by simp
  from v4 consider "v = 0" | "v = 1" | "v = 2" | "v = 3" by linarith
  then show ?case
  proof cases
    case 1
    with step.IH step.hyps(2) show ?thesis by (auto simp add: bonded_def)
  next
    case 2
    with v1 show ?thesis by simp
  qed simp_all
qed

lemma init_chain: "\<exists>r. BondRotator_init 3 chain4 ''A'' ''B'' = Inr r"
proof -
  have n1: "(1::real) * 1 + 0 * 0 \<noteq> 0" by simp
  obtain al where al: "ZAxisAligner (Fin 1, Fin 0, Fin 0) = Inr al"
    using ZAxisAligner_succeeds[OF n1, of 0] by blast
  have g: "get_xyz (lig_coor chain4) [1, 2, 3]
             = Inr [(Fin 0, Fin 0, Fin 0), (Fin 1, Fin 0, Fin 0), (Fin 2, Fin 1, Fin 0)]"
    "get_xyz (lig_coor chain4) [1] = Inr [(Fin 0, Fin 0, Fin 0)]"
    by (simp_all add: get_xyz_def chain4_def)
  have v: "row1 (map (\<lambda>v. vsub v (Fin 0, Fin 0, Fin 0))
                  [(Fin 0, Fin 0, Fin 0), (Fin 1, Fin 0, Fin 0), (Fin 2, Fin 1, Fin 0)])
             = Inr (Fin 1, Fin 0, Fin 0)"
    by (simp add: fsub_def)
  have a: "vdiv (Fin 1, Fin 0, Fin 0) (norm_planar (Fin 1, Fin 0, Fin 0)) = (Fin 1, Fin 0, Fin 0)"
    by simp
  have n: "lig_name chain4 = [''X'', ''A'', ''B'', ''C'']"
    "lig_connectivity chain4 = [[0, 1, 0, 0], [1, 0, 1, 0], [0, 1, 0, 1], [0, 0, 1, 0]]"
    by (simp_all add: chain4_def)
  show ?thesis
    unfolding BondRotator_init_def Let_def
    by (simp only: n idx_chain sum.case dfs_chain prod.case g row0.simps v a al) blast
qed

theorem BondRotator_call_frame_witness:
  "\<exists>r new. BondRotator_init 3 chain4 ''A'' ''B'' = Inr r \<and>
      BondRotator_call r (Fin 1) chain4 = (chain4, Inr new) \<and>
      length new = 4 \<and> new ! 0 = (Fin (- 1), Fin 1, Fin 0)"
proof -
  obtain r where r: "BondRotator_init 3 chain4 ''A'' ''B'' = Inr r"
    using init_chain by blast
  have len: "length (lig_coor chain4) = length (lig_coor chain4)" by simp
  from BondRotator_call_frame[OF r len, of "Fin 1"] obtain rt second new where
    i1: "index_of ''A'' (lig_name chain4) = Inr rt"
    and i2: "index_of ''B'' (lig_name chain4) = Inr second"
    and c: "BondRotator_call r (Fin 1) chain4 = (chain4, Inr new)"
    and l: "length new = length (lig_coor chain4)"
    and f: "\<forall>i < length new. i \<notin> moved_set (lig_connectivity chain4) rt second \<longrightarrow>
              new ! i = lig_coor chain4 ! i"
    by blast
  have n: "lig_name chain4 = [''X'', ''A'', ''B'', ''C'']"
    "lig_connectivity chain4 = [[0, 1, 0, 0], [1, 0, 1, 0], [0, 1, 0, 1], [0, 0, 1, 0]]"
    by (simp_all add: chain4_def)
  have rt: "rt = 1" and sec: "second = 2"
    using i1 i2 unfolding n idx_chain by simp_all
  have l4: "length new = 4" using l by (simp add: chain4_def)
  have "0 \<notin> moved_set (lig_connectivity chain4) rt second"
    unfolding n rt sec moved_set_def using chain_reached[of 0] by auto
  with f l4 have "new ! 0 = lig_coor chain4 ! 0" by simp
  then have "new ! 0 = (Fin (- 1), Fin 1, Fin 0)" by (simp add: chain4_def)
  with r c l4 show ?thesis by blast
qed

section \<open>Properties of the angle arguments\<close>

text \<open>The aligners of the axes (1, 0, 0) and (0, -1, 0), and the samplers built on the examples.\<close>

lemma covalent_init_chain:
  "CovalentBondRotator_init thiol chain4 ''SG'' ''A'' =
     Inr \<lparr>cbr_root = 0, cbr_atoms_to_rotate = [0, 1, 2, 3], cbr_t = (Fin (- 1), Fin 0, Fin 0),
          cbr_forward = ((Fin 0, Fin 0, Fin 1), (Fin 0, Fin 1, Fin 0), (Fin (- 1), Fin 0, Fin 0)),
          cbr_coor_to_rotate = [(Fin 0, Fin 1, Fin 0), (Fin 0, Fin 0, Fin 1),
                                (Fin 0, Fin 0, Fin 2), (Fin 0, Fin 1, Fin 3)]\<rparr>"
proof -
  have g: "get_xyz (lig_coor chain4) [0..<4]
             = Inr [(Fin (- 1), Fin 1, Fin 0), (Fin 0, Fin 0, Fin 0), (Fin 1, Fin 0, Fin 0), (Fin 2, Fin 1, Fin 0)]"
    by (simp add: get_xyz_def chain4_def upt_conv_Cons)
  have i: "index_of ''SG'' (res_name thiol) = Inr 0" by (simp add: thiol_def)
  have t: "get_xyz (res_coor thiol) [0] = Inr [(Fin (- 1), Fin 0, Fin 0)]"
    by (simp add: get_xyz_def thiol_def)
  have c1: "map (\<lambda>v. vsub v (Fin (- 1), Fin 0, Fin 0))
       [(Fin (- 1), Fin 1, Fin 0), (Fin 0, Fin 0, Fin 0), (Fin 1, Fin 0, Fin 0), (Fin 2, Fin 1, Fin 0)]
       = [(Fin 0, Fin 1, Fin 0), (Fin 1, Fin 0, Fin 0), (Fin 2, Fin 0, Fin 0), (Fin 3, Fin 1, Fin 0)]"
    by (simp add: fsub_def)
  have a: "vdiv (Fin 1, Fin 0, Fin 0) (norm_planar (Fin 1, Fin 0, Fin 0)) = (Fin 1, Fin 0, Fin 0)"
    by simp
  have l: "length (lig_name chain4) = 4" by (simp add: chain4_def)
  show ?thesis
    unfolding CovalentBondRotator_init_def Let_def
    apply (simp only: l)
    apply (simp only: i sum.case g t row0.simps c1 row1.simps a aligner_x aligner.simps forward_x backward_x)
    apply (simp add: upt_conv_Cons)
    done
qed

lemma covalent_call_chain:
  "snd (CovalentBondRotator_call
     \<lparr>cbr_root = 0, cbr_atoms_to_rotate = [0, 1, 2, 3], cbr_t = (Fin (- 1), Fin 0, Fin 0),
          cbr_forward = ((Fin 0, Fin 0, Fin 1), (Fin 0, Fin 1, Fin 0), (Fin (- 1), Fin 0, Fin 0)),
          cbr_coor_to_rotate = [(Fin 0, Fin 1, Fin 0), (Fin 0, Fin 0, Fin 1),
                                (Fin 0, Fin 0, Fin 2), (Fin 0, Fin 1, Fin 3)]\<rparr> (Fin a) chain4)
   = Inr [(Fin (- 1), Fin (cos a), Fin (sin a)), (Fin 0, Fin 0, Fin 0), (Fin 1, Fin 0, Fin 0),
          (Fin 2, Fin (cos a), Fin (sin a))]"
  by (simp add: CovalentBondRotator_call_def Let_def mat_mul_def Rz_def set_xyz_def chain4_def)

lemma aligner_minus_y:
  "ZAxisAligner (Fin 0, Fin (- 1), Fin 0) =
     Inr \<lparr>Rz_of = Rz (Fin (- (pi / 2))), Ry_of = Ry (Fin (pi / 2)),
          backward_rotation = mat_mul (transpose3 (Ry (Fin (pi / 2)))) (transpose3 (Rz (Fin (- (pi / 2))))),
          forward_rotation = mat_mul (Rz (Fin (- (pi / 2)))) (Ry (Fin (pi / 2)))\<rparr>"
proof -
  have n1: "(0::real) * 0 + (- 1) * (- 1) \<noteq> 0" by simp
  show ?thesis using ZAxisAligner_succeeds[OF n1, of 0] by simp
qed

lemma forward_minus_y:
  "mat_mul (Rz (Fin (- (pi / 2)))) (Ry (Fin (pi / 2))) =
     ((Fin 0, Fin 1, Fin 0), (Fin 0, Fin 0, Fin (- 1)), (Fin (- 1), Fin 0, Fin 0))"
  by (simp add: mat_mul_def Rz_def Ry_def)

lemma backward_minus_y:
  "mat_mul (transpose3 (Ry (Fin (pi / 2)))) (transpose3 (Rz (Fin (- (pi / 2))))) =
     ((Fin 0, Fin 0, Fin (- 1)), (Fin 1, Fin 0, Fin 0), (Fin 0, Fin (- 1), Fin 0))"
  by (simp add: mat_mul_def Rz_def Ry_def)

lemma axis_bent_residue:
  "CBAngleRotator_axis bent_residue
   = Inr ([2, 3], (Fin 0, Fin 0, Fin 0), [(Fin 0, Fin 0, Fin 1), (Fin 0, Fin 0, Fin 2)], (Fin 0, Fin (- 1), Fin 0))"
  by (simp add: CBAngleRotator_axis_def select_name_def select_name_ne_def get_xyz_def
      upt_conv_Cons fsub_def Let_def bent_residue_def)

lemma cb_init_bent:
  "CBAngleRotator_init bent_residue =
     Inr \<lparr>ar_atoms_to_rotate = [2, 3], ar_origin = (Fin 0, Fin 0, Fin 0),
          ar_coor_to_rotate = [(Fin (- 1), Fin 0, Fin 0), (Fin (- 2), Fin 0, Fin 0)],
          ar_forward = ((Fin 0, Fin 1, Fin 0), (Fin 0, Fin 0, Fin (- 1)), (Fin (- 1), Fin 0, Fin 0))\<rparr>"
  unfolding CBAngleRotator_init_def
  apply (simp only: axis_bent_residue sum.case prod.case aligner_minus_y aligner.simps
      forward_minus_y backward_minus_y)
  apply simp
  done

lemma bond_init_chain:
  "BondRotator_init 3 chain4 ''A'' ''B'' =
     Inr \<lparr>br_root = 1, br_atoms_to_rotate = [1, 2, 3], br_foundroot = 1,
          br_t = (Fin 0, Fin 0, Fin 0),
          br_forward = ((Fin 0, Fin 0, Fin 1), (Fin 0, Fin 1, Fin 0), (Fin (- 1), Fin 0, Fin 0)),
          br_coor_to_rotate = [(Fin 0, Fin 0, Fin 0), (Fin 0, Fin 0, Fin 1), (Fin 0, Fin 1, Fin 2)]\<rparr>"
proof -
  have g: "get_xyz (lig_coor chain4) [1, 2, 3]
             = Inr [(Fin 0, Fin 0, Fin 0), (Fin 1, Fin 0, Fin 0), (Fin 2, Fin 1, Fin 0)]"
    "get_xyz (lig_coor chain4) [1] = Inr [(Fin 0, Fin 0, Fin 0)]"
    by (simp_all add: get_xyz_def chain4_def)
  have c1: "map (\<lambda>v. vsub v (Fin 0, Fin 0, Fin 0))
                  [(Fin 0, Fin 0, Fin 0), (Fin 1, Fin 0, Fin 0), (Fin 2, Fin 1, Fin 0)]
             = [(Fin 0, Fin 0, Fin 0), (Fin 1, Fin 0, Fin 0), (Fin 2, Fin 1, Fin 0)]"
    by (simp add: fsub_def)
  have a: "vdiv (Fin 1, Fin 0, Fin 0) (norm_planar (Fin 1, Fin 0, Fin 0)) = (Fin 1, Fin 0, Fin 0)"
    by simp
  have n: "lig_name chain4 = [''X'', ''A'', ''B'', ''C'']"
    "lig_connectivity chain4 = [[0, 1, 0, 0], [1, 0, 1, 0], [0, 1, 0, 1], [0, 0, 1, 0]]"
    by (simp_all add: chain4_def)
  show ?thesis
    unfolding BondRotator_init_def Let_def
    apply (simp only: n idx_chain sum.case dfs_chain prod.case g row0.simps c1 row1.simps a
        aligner_x aligner.simps forward_x backward_x)
    apply simp
    done
qed

lemma cos_two_degrees: "1 / 2 < cos (2 * pi / 180)"
proof -
  have "cos (pi / 3) < cos (2 * pi / 180)"
    by (rule cos_monotone_0_pi) (use pi_gt_zero in simp_all)
  then show ?thesis by (simp add: cos_60)
qed

text \<open>
  Claim C9, as amended. The calls of the bond rotator and of the covalent bond rotator
  write the cached coordinates turned by the Z rotation of their argument as it is given,
  in radians; the calls of the chi rotator, of the two angle rotators and of the backbone
  rotator (every step of its loop with a nonzero angle) write coordinates turned by the Z
  rotation of their argument converted from degrees to radians. For the same number \<open>a\<close>
  the two Z rotations are the same matrix exactly when \<open>a\<close> is an integer multiple of
  \<open>360 pi / (180 - pi)\<close>, and differ for every other value.
\<close>

theorem angle_samplers_units:
  "snd (BondRotator_call br (Fin a) lig) =
     set_xyz (lig_coor lig)
       (map (\<lambda>v. vadd (mat_vec (mat_mul (br_forward br) (Rz (Fin a))) v) (br_t br))
            (br_coor_to_rotate br))
       (br_atoms_to_rotate br) \<and>
   snd (CovalentBondRotator_call cv (Fin a) lig) =
     set_xyz (lig_coor lig)
       (map (\<lambda>v. vadd (mat_vec (mat_mul (cbr_forward cv) (Rz (Fin a))) v) (cbr_t cv))
            (cbr_coor_to_rotate cv))
       (cbr_atoms_to_rotate cv) \<and>
   ChiRotator_call cr (Fin a) coor =
     set_xyz coor
       (map (\<lambda>v. vadd (row_times v (transpose3 (mat_mul (chi_forward cr) (Rz (Fin (a * pi / 180))))))
                      (chi_origin cr))
            (chi_coor_to_rotate cr))
       (chi_atom_selection cr) \<and>
   CBAngleRotator_call ar (Fin a) coor =
     set_xyz coor
       (map (\<lambda>v. vadd (mat_vec (mat_mul (ar_forward ar) (Rz (Fin (a * pi / 180)))) v) (ar_origin ar))
            (ar_coor_to_rotate ar))
       (ar_atoms_to_rotate ar) \<and>
   BisectingAngleRotator_call ar (Fin a) coor =
     set_xyz coor
       (map (\<lambda>v. vadd (mat_vec (mat_mul (ar_forward ar) (Rz (Fin (a * pi / 180)))) v) (ar_origin ar))
            (ar_coor_to_rotate ar))
       (ar_atoms_to_rotate ar) \<and>
   (length ts = ndofs bb \<longrightarrow>
      BackboneRotator_call bb (map Fin ts) coor =
        rotate_all
          (zip (map (\<lambda>t. Fin (t * pi / 180)) (rev ts))
               (zip (origins bb) (zip (aligners bb) (atoms_to_rotate bb))))
          (starting_coor bb)) \<and>
   (a \<noteq> 0 \<longrightarrow>
      rotate_all ((Fin a, origin, al, atoms) # steps) coor =
        (case get_xyz coor atoms of
           Inl e \<Rightarrow> Inl e
         | Inr c \<Rightarrow>
             (case set_xyz coor
                     (map (\<lambda>v. vadd (row_times (vsub v origin)
                                       (transpose3 (mat_mul (mat_mul (forward_rotation al) (Rz (Fin a)))
                                                            (backward_rotation al))))
                                    origin) c)
                     atoms of
                Inl e \<Rightarrow> Inl e
              | Inr coor' \<Rightarrow> rotate_all steps coor'))) \<and>
   (Rz (Fin a) = Rz (Fin (a * pi / 180)) \<longleftrightarrow> (\<exists>k::int. a = k * (360 * pi / (180 - pi))))"
proof -
  have "map deg2rad (rev (map Fin ts)) = map (\<lambda>t. Fin (t * pi / 180)) (rev ts)"
    by (simp add: rev_map deg2rad_Fin comp_def)
  then have bb: "length ts = ndofs bb \<longrightarrow>
      BackboneRotator_call bb (map Fin ts) coor =
        rotate_all
          (zip (map (\<lambda>t. Fin (t * pi / 180)) (rev ts))
               (zip (origins bb) (zip (aligners bb) (atoms_to_rotate bb))))
          (starting_coor bb)"
    by (simp add: BackboneRotator_call_def Let_def)
  have st: "a \<noteq> 0 \<longrightarrow>
      rotate_all ((Fin a, origin, al, atoms) # steps) coor =
        (case get_xyz coor atoms of
           Inl e \<Rightarrow> Inl e
         | Inr c \<Rightarrow>
             (case set_xyz coor
                     (map (\<lambda>v. vadd (row_times (vsub v origin)
                                       (transpose3 (mat_mul (mat_mul (forward_rotation al) (Rz (Fin a)))
                                                            (backward_rotation al))))
                                    origin) c)
                     atoms of
                Inl e \<Rightarrow> Inl e
              | Inr coor' \<Rightarrow> rotate_all steps coor'))"
    by (simp add: Let_def comp_def split: sum.splits)
  have rz: "Rz (Fin a) = Rz (Fin (a * pi / 180)) \<longleftrightarrow> (\<exists>k::int. a = k * (360 * pi / (180 - pi)))"
    unfolding Rz_eq_iff by (rule coincidence)
  have b: "snd (BondRotator_call br (Fin a) lig) =
     set_xyz (lig_coor lig)
       (map (\<lambda>v. vadd (mat_vec (mat_mul (br_forward br) (Rz (Fin a))) v) (br_t br))
            (br_coor_to_rotate br))
       (br_atoms_to_rotate br)"
    by (simp add: BondRotator_call_def bond_rotator_apply_def Let_def)
  have c: "snd (CovalentBondRotator_call cv (Fin a) lig) =
     set_xyz (lig_coor lig)
       (map (\<lambda>v. vadd (mat_vec (mat_mul (cbr_forward cv) (Rz (Fin a))) v) (cbr_t cv))
            (cbr_coor_to_rotate cv))
       (cbr_atoms_to_rotate cv)"
    by (simp add: CovalentBondRotator_call_def Let_def)
  show ?thesis
    using bb st rz b c
    by (simp add: ChiRotator_call_def CBAngleRotator_call_def chi_rotator_apply_def
        angle_rotator_apply_def BisectingAngleRotator_call_def deg2rad_Fin Let_def)
qed

text \<open>
  The argument 2 on samplers built by their constructors: the bond rotator about the bond
  A - B of the chain turns atom C by 2 radians, more than a quarter turn, so that its
  y coordinate becomes negative; the CB angle rotator turns CG by 2 degrees, so that its
  z coordinate stays above 1/2.
\<close>

theorem angle_samplers_units_witness:
  "(\<exists>r new x y z. BondRotator_init 3 chain4 ''A'' ''B'' = Inr r \<and>
       snd (BondRotator_call r (Fin 2) chain4) = Inr new \<and>
       new ! 3 = (Fin x, Fin y, Fin z) \<and> y < 0) \<and>
   (\<exists>r new x y z. CBAngleRotator_init bent_residue = Inr r \<and>
       CBAngleRotator_call r (Fin 2) (res_coor bent_residue) = Inr new \<and>
       new ! 2 = (Fin x, Fin y, Fin z) \<and> 1 / 2 < z) \<and>
   Rz (Fin 2) \<noteq> Rz (Fin (2 * pi / 180))"
proof -
  define rb where "rb = \<lparr>br_root = 1, br_atoms_to_rotate = [1, 2, 3], br_foundroot = 1,
          br_t = (Fin 0, Fin 0, Fin 0),
          br_forward = ((Fin 0, Fin 0, Fin 1), (Fin 0, Fin 1, Fin 0), (Fin (- 1), Fin 0, Fin 0)),
          br_coor_to_rotate = [(Fin 0, Fin 0, Fin 0), (Fin 0, Fin 0, Fin 1), (Fin 0, Fin 1, Fin 2)]\<rparr>"
  define ra where "ra = \<lparr>ar_atoms_to_rotate = [2, 3], ar_origin = (Fin 0, Fin 0, Fin 0),
          ar_coor_to_rotate = [(Fin (- 1), Fin 0, Fin 0), (Fin (- 2), Fin 0, Fin 0)],
          ar_forward = ((Fin 0, Fin 1, Fin 0), (Fin 0, Fin 0, Fin (- 1)), (Fin (- 1), Fin 0, Fin 0))\<rparr>"
  note u = angle_samplers_units[where br = rb and a = 2 and lig = chain4 and ar = ra
      and coor = "res_coor bent_residue"]
  have b: "snd (BondRotator_call rb (Fin 2) chain4) =
      Inr [(Fin (- 1), Fin 1, Fin 0), (Fin 0, Fin 0, Fin 0), (Fin 1, Fin 0, Fin 0),
           (Fin 2, Fin (cos 2), Fin (sin 2))]"
    using u by (simp add: rb_def mat_mul_def Rz_def set_xyz_def chain4_def)
  have c: "CBAngleRotator_call ra (Fin 2) (res_coor bent_residue) =
      Inr [(Fin 1, Fin 0, Fin 0), (Fin 0, Fin 0, Fin 0),
           (Fin (- sin (2 * pi / 180)), Fin 0, Fin (cos (2 * pi / 180))),
           (Fin (- (2 * sin (2 * pi / 180))), Fin 0, Fin (2 * cos (2 * pi / 180)))]"
    using u by (simp add: ra_def mat_mul_def Rz_def set_xyz_def bent_residue_def)
  have "cos 2 \<noteq> cos (2 * pi / 180)"
    using cos_two_less_zero cos_two_degrees by linarith
  then have d: "Rz (Fin 2) \<noteq> Rz (Fin (2 * pi / 180))"
    by (auto simp add: Rz_def)
  have "\<exists>r new x y z. BondRotator_init 3 chain4 ''A'' ''B'' = Inr r \<and>
       snd (BondRotator_call r (Fin 2) chain4) = Inr new \<and>
       new ! 3 = (Fin x, Fin y, Fin z) \<and> y < 0"
    using bond_init_chain[folded rb_def] b cos_two_less_zero by simp
  moreover have "\<exists>r new x y z. CBAngleRotator_init bent_residue = Inr r \<and>
       CBAngleRotator_call r (Fin 2) (res_coor bent_residue) = Inr new \<and>
       new ! 2 = (Fin x, Fin y, Fin z) \<and> 1 / 2 < z"
    using cb_init_bent[folded ra_def] c cos_two_degrees by simp
  ultimately show ?thesis using d by blast
qed

text \<open>
  The covalent bond rotator is an angle sampler other than the bond rotator, and it takes
  radians too: with the argument 2 it puts atom C of the chain where a turn by 2 radians
  about the axis takes it, not where a turn by 2 degrees does.
\<close>

theorem CovalentBondRotator_radians_counterexample:
  "(case CovalentBondRotator_init thiol chain4 ''SG'' ''A'' of
      Inl e \<Rightarrow> False
    | Inr r \<Rightarrow>
        (case snd (CovalentBondRotator_call r (Fin 2) chain4) of
           Inl e \<Rightarrow> False
         | Inr new \<Rightarrow>
             vec_within (1 / 10 ^ 6) (new ! 3) (Fin 2, Fin (cos 2), Fin (sin 2)) \<and>
             \<not> vec_within (1 / 10 ^ 6) (new ! 3)
                  (Fin 2, Fin (cos (2 * pi / 180)), Fin (sin (2 * pi / 180)))))"
proof -
  have "(1::real) / 10 ^ 6 < 1 / 2" by simp
  then have "1 / 10 ^ 6 < \<bar>cos 2 - cos (2 * pi / 180)\<bar>"
    using cos_two_less_zero cos_two_degrees by linarith
  then show ?thesis
    unfolding covalent_init_chain sum.case covalent_call_chain
    by simp
qed

end
